theory Spec2Isabelle
  imports Main "HOL-Library.Word"
begin

section \<open>The HomeKit producer of pkg/homekit/client.go\<close>

text \<open>
  The development embeds \<^verbatim>\<open>pkg/homekit/client.go\<close>: the \<^verbatim>\<open>Client\<close> struct and its methods
  \<^verbatim>\<open>GetMedias\<close>, \<^verbatim>\<open>Start\<close>, \<^verbatim>\<open>Stop\<close>, \<^verbatim>\<open>MarshalJSON\<close>, \<^verbatim>\<open>trackByKind\<close>, \<^verbatim>\<open>startMJPEG\<close>,
  \<^verbatim>\<open>srtpEndpoint\<close>, and the function \<^verbatim>\<open>limitter\<close>.

  Go values are modelled as follows.
  \<^item> A pointer that may be nil is an \<open>option\<close>; a slice that is compared with nil is a
    \<open>list option\<close>, so that the nil slice (\<open>None\<close>) and an empty slice that is not nil
    (\<open>Some []\<close>) stay apart.
  \<^item> An \<^verbatim>\<open>error\<close> result is an \<open>error option\<close> (\<open>None\<close> is the nil error); a run-time
    panic is the left injection of a sum.
  \<^item> A pointer to an \<^verbatim>\<open>srtp.Session\<close> is an address into a store of sessions.
  \<^item> What a method does to the world outside the Client (calls on the accessory
    connection, the session registry, the receivers) is appended to a trace of events.
  \<^item> Everything the file calls but does not define (the packages \<^verbatim>\<open>hap\<close>, \<^verbatim>\<open>camera\<close>,
    \<^verbatim>\<open>srtp\<close>, \<^verbatim>\<open>core\<close>, and the conversions \<^verbatim>\<open>videoToMedia\<close>, \<^verbatim>\<open>audioToMedia\<close>,
    \<^verbatim>\<open>trackToVideo\<close>, \<^verbatim>\<open>trackToAudio\<close>) is a field of the environment record \<open>env\<close>.
\<close>

subsection \<open>Data\<close>

type_synonym byte = "8 word"
type_synonym addr = nat

datatype error = Error string

datatype panic = NilDereference | IndexOutOfRange

text \<open>\<^verbatim>\<open>rtp.Packet\<close>: of the header only the timestamp is read or written here.\<close>

record rtp_packet =
  Timestamp :: "32 word"
  Payload :: "byte list"

text \<open>\<^verbatim>\<open>core.Codec\<close>, \<^verbatim>\<open>core.Receiver\<close> and \<^verbatim>\<open>core.Media\<close>, as far as the file reads them.\<close>

record codec =
  Name :: string

record receiver =
  Codec :: codec

record media =
  media_Kind :: string
  media_Codecs :: "codec list"

text \<open>
  The capability descriptors \<^verbatim>\<open>camera.SupportedVideoStreamConfig\<close> and
  \<^verbatim>\<open>camera.SupportedAudioStreamConfig\<close>: a list of codec variants each. The variants are
  opaque to the file; they are strings here.
\<close>

type_synonym video_codec = string
type_synonym audio_codec = string

record video_config =
  video_Codecs :: "video_codec list"

record audio_config =
  audio_Codecs :: "audio_codec list"

text \<open>\<^verbatim>\<open>srtp.Endpoint\<close> and \<^verbatim>\<open>srtp.Session\<close>.\<close>

record endpoint =
  Addr :: string
  Port :: "16 word"
  MasterKey :: "byte list"
  MasterSalt :: "byte list"
  SSRC :: "32 word"

text \<open>
  The three function values that \<^verbatim>\<open>Start\<close> stores in \<^verbatim>\<open>OnReadRTP\<close>, defunctionalised:
  the closure that resets the deadline and then writes to a track, and the method value
  \<^verbatim>\<open>audioTrack.WriteRTP\<close>. The track is the captured variable, nil when \<open>None\<close>.
\<close>

datatype handler =
    ResetAndWrite "receiver option"
  | WriteRTP receiver

record session =
  Local :: endpoint
  Recv :: "64 word"
  OnReadRTP :: "handler option"

text \<open>The accessory description: its characteristics by type.\<close>

datatype char_type =
    TypeSupportedVideoStreamConfiguration
  | TypeSupportedAudioStreamConfiguration

type_synonym character = string
type_synonym accessory = "char_type \<rightharpoonup> character"

datatype event =
    EvGetFirstAccessory
  | EvGetCharacter char_type
  | EvReadTLV8 char_type
  | EvNewStream addr addr
  | EvAddSession addr
  | EvDelSession "addr option"
  | EvTimerReset nat
  | EvWriteRTP receiver rtp_packet
  | EvGetImage nat nat
  | EvSuperProducerClose
  | EvHapClose

text \<open>
  The state: the fields of \<^verbatim>\<open>Client\<close> (with \<^verbatim>\<open>Medias\<close> and \<^verbatim>\<open>Receivers\<close> of the embedded
  \<^verbatim>\<open>core.SuperProducer\<close>), then the part of the world the methods change: the store of
  sessions, the sessions registered with the \<^verbatim>\<open>srtp.Server\<close>, the number of random draws
  made, the clock, the expiry time of the deadline timer of \<^verbatim>\<open>Start\<close> (0 until \<^verbatim>\<open>Start\<close>
  creates the timer), and the trace. The address of a session is its index in the store;
  \<^verbatim>\<open>&srtp.Session{...}\<close> appends to the store, so its address was never used before.
\<close>

record state =
  Medias :: "media list option"
  Receivers :: "receiver list option"
  videoConfig :: video_config
  audioConfig :: audio_config
  videoSession :: "addr option"
  audioSession :: "addr option"
  stream :: "string option"
  sessions :: "session list"
  registry :: "addr list"
  draws :: nat
  clock :: nat
  deadline :: nat
  trace :: "event list"

text \<open>The collaborators the file calls and does not define.\<close>

record env =
  hap_URL :: string
  hap_LocalIP :: string
  hap_GetFirstAccessory :: "error + accessory"
  hap_GetImage :: "nat \<Rightarrow> error + byte list"
  hap_Close :: "error option"
  srtp_Port :: int
  ReadTLV8_video :: "character \<Rightarrow> video_config \<Rightarrow> error option \<times> video_config"
  ReadTLV8_audio :: "character \<Rightarrow> audio_config \<Rightarrow> error option \<times> audio_config"
  videoToMedia :: "video_codec list \<Rightarrow> media"
  audioToMedia :: "audio_codec list \<Rightarrow> media"
  trackToVideo :: "receiver option \<Rightarrow> video_codec \<Rightarrow> video_codec"
  trackToAudio :: "receiver option \<Rightarrow> audio_codec \<Rightarrow> audio_codec"
  NewStream :: "video_codec \<Rightarrow> audio_codec \<Rightarrow> session \<Rightarrow> session \<Rightarrow> string option \<times> error option"
  Kind :: "codec \<Rightarrow> string"
  rand_byte :: "nat \<Rightarrow> nat \<Rightarrow> byte"
  rand_Uint32 :: "nat \<Rightarrow> 32 word"
  Now90000 :: "nat \<Rightarrow> 32 word"
  ConnDeadline :: nat
  CodecJPEG :: string
  KindVideo :: string
  KindAudio :: string

text \<open>
  The Client that \<^verbatim>\<open>Dial\<close> returns, \<^verbatim>\<open>&Client{hap: conn, srtp: server}\<close>: every other field
  has its zero value. The argument is what the server has registered so far.
\<close>

definition Dial_Client :: "addr list \<Rightarrow> state" where
  "Dial_Client reg =
     \<lparr>Medias = None, Receivers = None,
      videoConfig = \<lparr>video_Codecs = []\<rparr>, audioConfig = \<lparr>audio_Codecs = []\<rparr>,
      videoSession = None, audioSession = None, stream = None,
      sessions = [], registry = reg, draws = 0, clock = 0, deadline = 0,
      trace = []\<rparr>"

definition log :: "event \<Rightarrow> state \<Rightarrow> state" where
  "log e c = c\<lparr>trace := trace c @ [e]\<rparr>"

subsection \<open>GetMedias\<close>

text \<open>
  \<^verbatim>\<open>char.ReadTLV8(&c.videoConfig)\<close> decodes into the field of the Client: what the decoder
  leaves there is stored whether it reports an error or not.
\<close>

definition GetMedias :: "env \<Rightarrow> state \<Rightarrow> media list option \<times> state" where
  "GetMedias e c =
     (if Medias c \<noteq> None then (Medias c, c)
      else
        let c = log EvGetFirstAccessory c in
        case hap_GetFirstAccessory e of
          Inl err \<Rightarrow> (None, c)
        | Inr acc \<Rightarrow>
            let c = log (EvGetCharacter TypeSupportedVideoStreamConfiguration) c in
            (case acc TypeSupportedVideoStreamConfiguration of
               None \<Rightarrow> (None, c)
             | Some char \<Rightarrow>
                 let (err, v) = ReadTLV8_video e char (videoConfig c);
                     c = log (EvReadTLV8 TypeSupportedVideoStreamConfiguration) (c\<lparr>videoConfig := v\<rparr>)
                 in if err \<noteq> None then (None, c)
                 else
                   let c = log (EvGetCharacter TypeSupportedAudioStreamConfiguration) c in
                   (case acc TypeSupportedAudioStreamConfiguration of
                      None \<Rightarrow> (None, c)
                    | Some char \<Rightarrow>
                        let (err, a) = ReadTLV8_audio e char (audioConfig c);
                            c = log (EvReadTLV8 TypeSupportedAudioStreamConfiguration)
                                  (c\<lparr>audioConfig := a\<rparr>)
                        in if err \<noteq> None then (None, c)
                        else
                          let c = c\<lparr>Medias := Some
                                    [videoToMedia e (video_Codecs (videoConfig c)),
                                     audioToMedia e (audio_Codecs (audioConfig c))]\<rparr>
                          in (Medias c, c))))"

subsection \<open>MarshalJSON\<close>

text \<open>
  \<^verbatim>\<open>core.Info\<close> as the method fills it; \<^verbatim>\<open>json.Marshal\<close> is outside the file, so the
  result is the value handed to it. \<^verbatim>\<open>c.videoSession.Recv\<close> and \<^verbatim>\<open>c.audioSession.Recv\<close>
  read through the session pointers, the left operand first; \<^verbatim>\<open>+\<close> is the addition of
  Go's \<^verbatim>\<open>int\<close>.
\<close>

record info =
  info_Type :: string
  info_URL :: string
  info_Medias :: "media list option"
  info_Receivers :: "receiver list option"
  info_Recv :: "64 word"

definition deref :: "state \<Rightarrow> addr option \<Rightarrow> panic + session" where
  "deref c p =
     (case p of
        None \<Rightarrow> Inl NilDereference
      | Some a \<Rightarrow> if a < length (sessions c) then Inr (sessions c ! a) else Inl NilDereference)"

definition MarshalJSON :: "env \<Rightarrow> state \<Rightarrow> panic + info" where
  "MarshalJSON e c =
     (case deref c (videoSession c) of
        Inl p \<Rightarrow> Inl p
      | Inr v \<Rightarrow>
          (case deref c (audioSession c) of
             Inl p \<Rightarrow> Inl p
           | Inr a \<Rightarrow>
               Inr \<lparr>info_Type = ''HomeKit active producer'',
                    info_URL = hap_URL e,
                    info_Medias = Medias c,
                    info_Receivers = Receivers c,
                    info_Recv = Recv v + Recv a\<rparr>))"

subsection \<open>trackByKind and srtpEndpoint\<close>

text \<open>A \<^verbatim>\<open>range\<close> over the nil slice runs no iteration.\<close>

definition trackByKind :: "env \<Rightarrow> state \<Rightarrow> string \<Rightarrow> receiver option" where
  "trackByKind e c kind =
     find (\<lambda>receiver. Kind e (Codec receiver) = kind)
       (case Receivers c of None \<Rightarrow> [] | Some rs \<Rightarrow> rs)"

text \<open>
  Modelled from the spec: \<^verbatim>\<open>core.RandString(size, 0)\<close>, which is not in the file. The spec
  has it generate a fresh random key of \<open>n\<close> bytes; the bytes of the \<open>k\<close>-th draw come
  from the environment.
\<close>

definition RandString :: "env \<Rightarrow> nat \<Rightarrow> nat \<Rightarrow> byte list" where
  "RandString e k n = map (rand_byte e k) [0..<n]"

text \<open>\<^verbatim>\<open>uint16(c.srtp.Port())\<close> truncates Go's \<^verbatim>\<open>int\<close> to 16 bits.\<close>

definition srtpEndpoint :: "env \<Rightarrow> state \<Rightarrow> endpoint \<times> state" where
  "srtpEndpoint e c =
     (\<lparr>Addr = hap_LocalIP e,
       Port = word_of_int (srtp_Port e),
       MasterKey = RandString e (draws c) 16,
       MasterSalt = RandString e (draws c + 1) 14,
       SSRC = rand_Uint32 e (draws c + 2)\<rparr>,
      c\<lparr>draws := draws c + 3\<rparr>)"

subsection \<open>The session registry\<close>

text \<open>
  Modelled from the spec: \<^verbatim>\<open>srtp.Server.AddSession\<close> and \<^verbatim>\<open>srtp.Server.DelSession\<close>, which
  are not in the file. The spec gives the registry \<open>addSession(session)\<close> and
  \<open>removeSession(session)\<close>, and removing a nil session or one that is not registered
  is a no-op.
\<close>

definition AddSession :: "addr \<Rightarrow> state \<Rightarrow> state" where
  "AddSession a c = log (EvAddSession a) (c\<lparr>registry := registry c @ [a]\<rparr>)"

definition DelSession :: "addr option \<Rightarrow> state \<Rightarrow> state" where
  "DelSession p c =
     log (EvDelSession p)
       (case p of None \<Rightarrow> c | Some a \<Rightarrow> c\<lparr>registry := removeAll a (registry c)\<rparr>)"

definition new_Session :: "session \<Rightarrow> state \<Rightarrow> addr \<times> state" where
  "new_Session s c = (length (sessions c), c\<lparr>sessions := sessions c @ [s]\<rparr>)"

definition set_OnReadRTP :: "addr \<Rightarrow> handler \<Rightarrow> state \<Rightarrow> state" where
  "set_OnReadRTP a h c =
     c\<lparr>sessions := (sessions c)[a := (sessions c ! a)\<lparr>OnReadRTP := Some h\<rparr>]\<rparr>"

subsection \<open>Start\<close>

text \<open>
  The MJPEG loop. It leaves only through \<^verbatim>\<open>return err\<close>, so it is a partial function:
  \<open>None\<close> is the loop that never returns. The \<open>i\<close>-th call of \<^verbatim>\<open>GetImage\<close> and of
  \<^verbatim>\<open>core.Now90000\<close> answers what the environment says at \<open>i\<close>.
\<close>

partial_function (option) startMJPEG_loop ::
  "env \<Rightarrow> receiver \<Rightarrow> nat \<Rightarrow> state \<Rightarrow> (error \<times> state) option" where
  "startMJPEG_loop e receiver i c =
     (case hap_GetImage e i of
        Inl err \<Rightarrow> Some (err, log (EvGetImage 1920 1080) c)
      | Inr b \<Rightarrow>
          startMJPEG_loop e receiver (i + 1)
            (log (EvWriteRTP receiver \<lparr>Timestamp = Now90000 e i, Payload = b\<rparr>)
               (log (EvGetImage 1920 1080) c)))"

definition startMJPEG :: "env \<Rightarrow> state \<Rightarrow> (panic + error option \<times> state) option" where
  "startMJPEG e c =
     (case Receivers c of
        Some (receiver # _) \<Rightarrow>
          (case startMJPEG_loop e receiver 0 c of
             None \<Rightarrow> None
           | Some (err, c') \<Rightarrow> Some (Inr (Some err, c')))
      | _ \<Rightarrow> Some (Inl IndexOutOfRange))"

text \<open>
  The streaming path of \<^verbatim>\<open>Start\<close> from \<^verbatim>\<open>trackByKind\<close> to the last handler installed
  (everything before \<^verbatim>\<open><-deadline.C\<close>). The result is a panic, or the state with
  \<open>Some err\<close> when the method has returned \<open>err\<close>, or the state with \<open>None\<close> when it has
  reached the wait. \<^verbatim>\<open>&c.videoConfig.Codecs[0]\<close> panics on an empty list.
\<close>

definition Start_streaming :: "env \<Rightarrow> state \<Rightarrow> panic + error option \<times> state" where
  "Start_streaming e c =
     (let videoTrack = trackByKind e c (KindVideo e) in
      case video_Codecs (videoConfig c) of
        [] \<Rightarrow> Inl IndexOutOfRange
      | video0 # _ \<Rightarrow>
          let videoCodec = trackToVideo e videoTrack video0;
              audioTrack = trackByKind e c (KindAudio e)
          in
          (case audio_Codecs (audioConfig c) of
             [] \<Rightarrow> Inl IndexOutOfRange
           | audio0 # _ \<Rightarrow>
               let audioCodec = trackToAudio e audioTrack audio0;
                   (vlocal, c) = srtpEndpoint e c;
                   (v, c) = new_Session \<lparr>Local = vlocal, Recv = 0, OnReadRTP = None\<rparr> c;
                   c = c\<lparr>videoSession := Some v\<rparr>;
                   (alocal, c) = srtpEndpoint e c;
                   (a, c) = new_Session \<lparr>Local = alocal, Recv = 0, OnReadRTP = None\<rparr> c;
                   c = c\<lparr>audioSession := Some a\<rparr>;
                   (handle, err) =
                     NewStream e videoCodec audioCodec (sessions c ! v) (sessions c ! a);
                   c = log (EvNewStream v a) (c\<lparr>stream := handle\<rparr>)
               in
               if err \<noteq> None then Inr (err, c)
               else
                 let c = AddSession v c;
                     c = AddSession a c;
                     c = c\<lparr>deadline := clock c + ConnDeadline e\<rparr>
                 in
                 (case videoTrack of
                    Some vt \<Rightarrow>
                      let c = set_OnReadRTP v (ResetAndWrite videoTrack) c in
                      (case audioTrack of
                         Some at \<Rightarrow> Inr (None, set_OnReadRTP a (WriteRTP at) c)
                       | None \<Rightarrow> Inr (None, c))
                  | None \<Rightarrow> Inr (None, set_OnReadRTP a (ResetAndWrite audioTrack) c))))"

text \<open>
  A call of a stored handler on a packet. \<^verbatim>\<open>deadline.Reset(core.ConnDeadline)\<close> moves the
  expiry to the present time plus the window. \<^verbatim>\<open>WriteRTP\<close> of a receiver is outside the
  file: the call is recorded in the trace. The audio-only closure reads its track
  through a pointer that is nil when no receiver has the audio kind.
\<close>

definition call_handler :: "env \<Rightarrow> handler \<Rightarrow> rtp_packet \<Rightarrow> state \<Rightarrow> panic + state" where
  "call_handler e h packet c =
     (case h of
        ResetAndWrite track \<Rightarrow>
          let c = log (EvTimerReset (clock c)) (c\<lparr>deadline := clock c + ConnDeadline e\<rparr>) in
          (case track of
             None \<Rightarrow> Inl NilDereference
           | Some r \<Rightarrow> Inr (log (EvWriteRTP r packet) c))
      | WriteRTP r \<Rightarrow> Inr (log (EvWriteRTP r packet) c))"

text \<open>
  The wait \<^verbatim>\<open><-deadline.C\<close>. While \<^verbatim>\<open>Start\<close> is blocked, the registry delivers packets
  to the two sessions from its own goroutines; the deliveries are given as a list of
  arrival time, session and packet. A delivery that comes at or after the expiry finds
  the timer fired: \<^verbatim>\<open>Start\<close> returns at the expiry time. A session whose \<^verbatim>\<open>OnReadRTP\<close> is
  nil takes no packet.
\<close>

datatype which = ToVideo | ToAudio

definition session_of :: "which \<Rightarrow> state \<Rightarrow> addr option" where
  "session_of w c = (case w of ToVideo \<Rightarrow> videoSession c | ToAudio \<Rightarrow> audioSession c)"

definition deliver :: "env \<Rightarrow> which \<Rightarrow> rtp_packet \<Rightarrow> state \<Rightarrow> panic + state" where
  "deliver e w packet c =
     (case deref c (session_of w c) of
        Inl p \<Rightarrow> Inl p
      | Inr s \<Rightarrow>
          (case OnReadRTP s of
             None \<Rightarrow> Inr c
           | Some h \<Rightarrow> call_handler e h packet c))"

fun await_deadline :: "env \<Rightarrow> (nat \<times> which \<times> rtp_packet) list \<Rightarrow> state \<Rightarrow> panic + state" where
  "await_deadline e [] c = Inr (c\<lparr>clock := deadline c\<rparr>)"
| "await_deadline e ((t, w, packet) # ds) c =
     (if deadline c \<le> t then Inr (c\<lparr>clock := deadline c\<rparr>)
      else
        (case deliver e w packet (c\<lparr>clock := t\<rparr>) of
           Inl p \<Rightarrow> Inl p
         | Inr c' \<Rightarrow> await_deadline e ds c'))"

definition Start ::
  "env \<Rightarrow> (nat \<times> which \<times> rtp_packet) list \<Rightarrow> state \<Rightarrow> (panic + error option \<times> state) option" where
  "Start e ds c =
     (case Receivers c of
        None \<Rightarrow> Some (Inr (Some (Error ''producer without tracks''), c))
      | Some [] \<Rightarrow> Some (Inl IndexOutOfRange)
      | Some (r # _) \<Rightarrow>
          if Name (Codec r) = CodecJPEG e then startMJPEG e c
          else
            (case Start_streaming e c of
               Inl p \<Rightarrow> Some (Inl p)
             | Inr (Some err, c') \<Rightarrow> Some (Inr (Some err, c'))
             | Inr (None, c') \<Rightarrow>
                 (case await_deadline e ds c' of
                    Inl p \<Rightarrow> Some (Inl p)
                  | Inr c'' \<Rightarrow> Some (Inr (None, c'')))))"

subsection \<open>Stop\<close>

definition Stop :: "env \<Rightarrow> state \<Rightarrow> error option \<times> state" where
  "Stop e c =
     (let c = log EvSuperProducerClose c;
          c = DelSession (videoSession c) c;
          c = DelSession (audioSession c) c
      in (hap_Close e, log EvHapClose c))"

subsection \<open>limitter\<close>

text \<open>
  \<^verbatim>\<open>time.Duration\<close> is an \<^verbatim>\<open>int64\<close>: its arithmetic wraps around, its division truncates
  towards zero. Instants are integers of nanoseconds; \<^verbatim>\<open>Time.Sub\<close> saturates at the ends
  of the \<^verbatim>\<open>int64\<close> range.
\<close>

definition int64 :: "int \<Rightarrow> int" where
  "int64 x = (x + 2 ^ 63) mod 2 ^ 64 - 2 ^ 63"

definition quo :: "int \<Rightarrow> int \<Rightarrow> int" where
  "quo a b = sgn a * sgn b * (\<bar>a\<bar> div \<bar>b\<bar>)"

definition Sub :: "int \<Rightarrow> int \<Rightarrow> int" where
  "Sub t u = max (- (2 ^ 63)) (min (2 ^ 63 - 1) (t - u))"

definition sampleRate :: int where "sampleRate = 16000"
definition sampleSize :: int where "sampleSize = 480"
definition Second :: int where "Second = 1000000000"

text \<open>
  The variables the returned closure captures, \<^verbatim>\<open>send\<close> and \<^verbatim>\<open>firstTime\<close>, and one call of
  the closure at the instant \<open>now\<close>: the new variables, and the packet handed to
  \<^verbatim>\<open>handler\<close> if there is one. \<^verbatim>\<open>uint32(send)\<close> keeps the low 32 bits.
\<close>

record limitter_vars =
  send :: int
  firstTime :: int

definition limitter_init :: limitter_vars where
  "limitter_init = \<lparr>send = 0, firstTime = 0\<rparr>"

definition limitter_forward :: "limitter_vars \<Rightarrow> rtp_packet \<Rightarrow> limitter_vars \<times> rtp_packet option" where
  "limitter_forward s packet =
     (let s = s\<lparr>send := int64 (send s + sampleSize)\<rparr>
      in (s, Some (packet\<lparr>Timestamp := word_of_int (send s)\<rparr>)))"

definition limitter :: "limitter_vars \<Rightarrow> int \<Rightarrow> rtp_packet \<Rightarrow> limitter_vars \<times> rtp_packet option" where
  "limitter s now packet =
     (if send s \<noteq> 0 then
        let elapsed = quo (int64 (Sub now (firstTime s) * sampleRate)) Second in
        if int64 (send s + sampleSize) > elapsed then (s, None)
        else limitter_forward s packet
      else limitter_forward (s\<lparr>firstTime := now\<rparr>) packet)"

text \<open>The closure called on a stream of packets with their arrival instants.\<close>

fun limitter_run :: "limitter_vars \<Rightarrow> (int \<times> rtp_packet) list \<Rightarrow> rtp_packet option list" where
  "limitter_run s [] = []"
| "limitter_run s ((now, packet) # ps) =
     (let (s', out) = limitter s now packet in out # limitter_run s' ps)"

fun limitter_vars_after :: "limitter_vars \<Rightarrow> (int \<times> rtp_packet) list \<Rightarrow> limitter_vars" where
  "limitter_vars_after s [] = s"
| "limitter_vars_after s ((now, packet) # ps) = limitter_vars_after (fst (limitter s now packet)) ps"

subsection \<open>A failing step of GetMedias\<close>

text \<open>
  The condition "a step of \<^verbatim>\<open>GetMedias\<close> fails", in the words of the specification: the
  read of the accessory description fails, or the video or the audio capability
  characteristic is absent, or its decoding fails.
\<close>

definition GetMedias_fails :: "env \<Rightarrow> state \<Rightarrow> bool" where
  "GetMedias_fails e c =
     (case hap_GetFirstAccessory e of
        Inl err \<Rightarrow> True
      | Inr acc \<Rightarrow>
          (case acc TypeSupportedVideoStreamConfiguration of
             None \<Rightarrow> True
           | Some cv \<Rightarrow>
               fst (ReadTLV8_video e cv (videoConfig c)) \<noteq> None \<or>
               (case acc TypeSupportedAudioStreamConfiguration of
                  None \<Rightarrow> True
                | Some ca \<Rightarrow> fst (ReadTLV8_audio e ca (audioConfig c)) \<noteq> None)))"

subsection \<open>Example collaborators\<close>

text \<open>
  An accessory that advertises one H264 and one OPUS variant, accepts the stream, and
  answers two image requests before it fails the third; and the same accessory without
  the audio characteristic, and declining the stream.
\<close>

definition camera_env :: env where
  "camera_env =
     \<lparr>hap_URL = ''homekit://192.168.1.5:5001'',
      hap_LocalIP = ''192.168.1.2'',
      hap_GetFirstAccessory =
        Inr [TypeSupportedVideoStreamConfiguration \<mapsto> ''video'',
             TypeSupportedAudioStreamConfiguration \<mapsto> ''audio''],
      hap_GetImage = (\<lambda>i. if i < 2 then Inr [255, 216] else Inl (Error ''timeout'')),
      hap_Close = None,
      srtp_Port = 8443,
      ReadTLV8_video = (\<lambda>ch cfg.
        if ch = ''video'' then (None, \<lparr>video_Codecs = [''H264'']\<rparr>)
        else (Some (Error ''tlv8''), cfg)),
      ReadTLV8_audio = (\<lambda>ch cfg.
        if ch = ''audio'' then (None, \<lparr>audio_Codecs = [''OPUS'']\<rparr>)
        else (Some (Error ''tlv8''), cfg)),
      videoToMedia = (\<lambda>cs. \<lparr>media_Kind = ''video'', media_Codecs = map (\<lambda>n. \<lparr>Name = n\<rparr>) cs\<rparr>),
      audioToMedia = (\<lambda>cs. \<lparr>media_Kind = ''audio'', media_Codecs = map (\<lambda>n. \<lparr>Name = n\<rparr>) cs\<rparr>),
      trackToVideo = (\<lambda>track v. v),
      trackToAudio = (\<lambda>track a. a),
      NewStream = (\<lambda>v a vs as. (Some ''stream'', None)),
      Kind = (\<lambda>c. if Name c = ''H264'' \<or> Name c = ''JPEG'' then ''video''
                  else if Name c = ''OPUS'' then ''audio'' else ''other''),
      rand_byte = (\<lambda>k i. word_of_nat (k + i)),
      rand_Uint32 = (\<lambda>k. word_of_nat k),
      Now90000 = (\<lambda>i. word_of_nat (3000 * i)),
      ConnDeadline = 5,
      CodecJPEG = ''JPEG'',
      KindVideo = ''video'',
      KindAudio = ''audio''\<rparr>"

definition camera_without_audio :: env where
  "camera_without_audio =
     camera_env\<lparr>hap_GetFirstAccessory :=
       Inr [TypeSupportedVideoStreamConfiguration \<mapsto> ''video'']\<rparr>"

definition camera_declining :: env where
  "camera_declining =
     camera_env\<lparr>NewStream := (\<lambda>v a vs as. (None, Some (Error ''declined'')))\<rparr>"

text \<open>A Client that has negotiated with the example accessory and holds the receivers \<open>rs\<close>.\<close>

definition negotiated :: "receiver list option \<Rightarrow> state" where
  "negotiated rs =
     (snd (GetMedias camera_env (Dial_Client [])))\<lparr>Receivers := rs\<rparr>"

definition h264 :: receiver where "h264 = \<lparr>Codec = \<lparr>Name = ''H264''\<rparr>\<rparr>"
definition opus :: receiver where "opus = \<lparr>Codec = \<lparr>Name = ''OPUS''\<rparr>\<rparr>"
definition jpeg :: receiver where "jpeg = \<lparr>Codec = \<lparr>Name = ''JPEG''\<rparr>\<rparr>"

subsection \<open>Descriptions used in the statements about Start\<close>

text \<open>
  The call \<^verbatim>\<open>camera.NewStream(c.hap, videoCodec, audioCodec, c.videoSession, c.audioSession)\<close>
  as \<^verbatim>\<open>Start\<close> makes it on the Client \<open>c\<close>: the codecs narrowed from the first advertised
  variants, and the two sessions just created, each with its own endpoint.
\<close>

definition NewStream_call :: "env \<Rightarrow> state \<Rightarrow> string option \<times> error option" where
  "NewStream_call e c =
     NewStream e
       (trackToVideo e (trackByKind e c (KindVideo e)) (hd (video_Codecs (videoConfig c))))
       (trackToAudio e (trackByKind e c (KindAudio e)) (hd (audio_Codecs (audioConfig c))))
       \<lparr>Local = fst (srtpEndpoint e c), Recv = 0, OnReadRTP = None\<rparr>
       \<lparr>Local = fst (srtpEndpoint e (c\<lparr>draws := draws c + 3\<rparr>)), Recv = 0, OnReadRTP = None\<rparr>"

text \<open>
  The events of \<open>n\<close> rounds of the MJPEG loop that fetch an image, from round \<open>i\<close> on:
  the request, then the write of one packet with the time stamp of the round and the
  image as payload.
\<close>

fun polls :: "env \<Rightarrow> receiver \<Rightarrow> nat \<Rightarrow> nat \<Rightarrow> event list" where
  "polls e r i 0 = []"
| "polls e r i (Suc n) =
     [EvGetImage 1920 1080,
      EvWriteRTP r \<lparr>Timestamp = Now90000 e i, Payload = projr (hap_GetImage e i)\<rparr>]
     @ polls e r (Suc i) n"

text \<open>
  The handlers as \<^verbatim>\<open>Start\<close> installs them when a video track \<open>vt\<close> and an audio track
  \<open>at\<close> exist: the resetting closure on the video session, \<^verbatim>\<open>audioTrack.WriteRTP\<close> on the
  audio session.
\<close>

definition wired :: "receiver \<Rightarrow> receiver \<Rightarrow> state \<Rightarrow> bool" where
  "wired vt at c =
     (case (videoSession c, audioSession c) of
        (Some v, Some a) \<Rightarrow>
          v < length (sessions c) \<and> a < length (sessions c) \<and>
          OnReadRTP (sessions c ! v) = Some (ResetAndWrite (Some vt)) \<and>
          OnReadRTP (sessions c ! a) = Some (WriteRTP at)
      | _ \<Rightarrow> False)"

text \<open>Example clients and an example packet.\<close>

definition both_tracks :: state where
  "both_tracks = negotiated (Some [h264, opus])"

definition audio_only :: state where
  "audio_only = negotiated (Some [opus])"

definition still_image :: state where
  "still_image = negotiated (Some [jpeg])"

definition no_tracks :: state where
  "no_tracks = negotiated (Some [])"

text \<open>The same Client on a server that has a session of another producer registered.\<close>

definition busy_server :: state where
  "busy_server =
     both_tracks
       \<lparr>sessions :=
          [\<lparr>Local = \<lparr>Addr = ''192.168.1.2'', Port = 8443, MasterKey = [], MasterSalt = [],
                     SSRC = 7\<rparr>,
            Recv = 0, OnReadRTP = None\<rparr>],
        registry := [0]\<rparr>"

definition pkt :: rtp_packet where
  "pkt = \<lparr>Timestamp = 0, Payload = [1, 2, 3]\<rparr>"

definition camera_always_answering :: env where
  "camera_always_answering = camera_env\<lparr>hap_GetImage := (\<lambda>i. Inr [255, 216])\<rparr>"

subsection \<open>Streams through limitter\<close>

text \<open>The packets that reach \<^verbatim>\<open>handler\<close>, in order.\<close>

fun forwarded :: "rtp_packet option list \<Rightarrow> rtp_packet list" where
  "forwarded [] = []"
| "forwarded (None # outs) = forwarded outs"
| "forwarded (Some p # outs) = p # forwarded outs"

definition paced :: "(int \<times> rtp_packet) list \<Rightarrow> rtp_packet list" where
  "paced ps = forwarded (limitter_run limitter_init ps)"

text \<open>
  An example stream: \<open>n\<close> packets from number \<open>i\<close> on, packet \<open>j\<close> arriving \<open>j\<close> times
  60 ms after the first.
\<close>

fun steady_from :: "nat \<Rightarrow> nat \<Rightarrow> (int \<times> rtp_packet) list" where
  "steady_from i 0 = []"
| "steady_from i (Suc n) = (int i * 60000000, pkt) # steady_from (Suc i) n"

definition steady_stream :: "nat \<Rightarrow> (int \<times> rtp_packet) list" where
  "steady_stream n = steady_from 0 n"

section \<open>Status reporting\<close>

lemma MarshalJSON_sum:
  "videoSession c = Some v \<Longrightarrow> audioSession c = Some a \<Longrightarrow>
   v < length (sessions c) \<Longrightarrow> a < length (sessions c) \<Longrightarrow>
   \<exists>i. MarshalJSON e c = Inr i \<and> info_Recv i = Recv (sessions c ! v) + Recv (sessions c ! a)"
  by (simp add: MarshalJSON_def deref_def)

text \<open>
  C1. Status reporting is claimed not to panic when the session pointers are nil. On the
  Client as \<^verbatim>\<open>Dial\<close> returns it, before any \<^verbatim>\<open>Start\<close>, both pointers are nil and
  \<^verbatim>\<open>MarshalJSON\<close> panics with a nil dereference at \<^verbatim>\<open>c.videoSession.Recv\<close>.
\<close>

theorem MarshalJSON_nil_sessions_panics:
  "MarshalJSON e (Dial_Client reg) = Inl NilDereference"
  by (simp add: MarshalJSON_def deref_def Dial_Client_def)

section \<open>GetMedias\<close>

lemma GetMedias_cached: "Medias c \<noteq> None \<Longrightarrow> GetMedias e c = (Medias c, c)"
  by (simp add: GetMedias_def)

lemma GetMedias_result_cached: "GetMedias e c = (r, c') \<Longrightarrow> r = Medias c'"
  by (auto simp: GetMedias_def Let_def log_def
      split: if_splits sum.splits option.splits prod.splits)

lemma GetMedias_fails_None:
  "Medias c = None \<Longrightarrow> GetMedias_fails e c \<Longrightarrow>
   fst (GetMedias e c) = None \<and> Medias (snd (GetMedias e c)) = None"
  by (auto simp: GetMedias_def GetMedias_fails_def Let_def log_def
      split: if_splits sum.splits option.splits prod.splits)

lemma GetMedias_videoConfig:
  "Medias c = None \<Longrightarrow> hap_GetFirstAccessory e = Inr acc \<Longrightarrow>
   acc TypeSupportedVideoStreamConfiguration = Some cv \<Longrightarrow>
   videoConfig (snd (GetMedias e c)) = snd (ReadTLV8_video e cv (videoConfig c))"
  by (auto simp: GetMedias_def Let_def log_def
      split: if_splits sum.splits option.splits prod.splits)

lemma GetMedias_trace:
  "Medias c = None \<Longrightarrow>
   \<exists>evs. trace (snd (GetMedias e c)) = trace c @ EvGetFirstAccessory # evs"
  by (auto simp: GetMedias_def Let_def log_def
      split: if_splits sum.splits option.splits prod.splits)

lemma GetMedias_succeeds:
  "Medias c = None \<Longrightarrow> hap_GetFirstAccessory e = Inr acc \<Longrightarrow>
   acc TypeSupportedVideoStreamConfiguration = Some cv \<Longrightarrow>
   ReadTLV8_video e cv (videoConfig c) = (None, v) \<Longrightarrow>
   acc TypeSupportedAudioStreamConfiguration = Some ca \<Longrightarrow>
   ReadTLV8_audio e ca (audioConfig c) = (None, a) \<Longrightarrow>
   fst (GetMedias e c) = Some [videoToMedia e (video_Codecs v), audioToMedia e (audio_Codecs a)] \<and>
   trace (snd (GetMedias e c)) =
     trace c @ [EvGetFirstAccessory,
                EvGetCharacter TypeSupportedVideoStreamConfiguration,
                EvReadTLV8 TypeSupportedVideoStreamConfiguration,
                EvGetCharacter TypeSupportedAudioStreamConfiguration,
                EvReadTLV8 TypeSupportedAudioStreamConfiguration]"
  by (simp add: GetMedias_def Let_def log_def)

lemmas camera_simps =
  camera_env_def camera_without_audio_def camera_declining_def negotiated_def
  h264_def opus_def jpeg_def Dial_Client_def log_def

text \<open>
  C4, as stated: when a step of \<^verbatim>\<open>GetMedias\<close> fails, no half-decoded descriptor set is
  retained on the Client. This fails: with the video characteristic decoded and the audio
  characteristic absent, \<^verbatim>\<open>GetMedias\<close> returns nil and the Client keeps the decoded video
  descriptor.
\<close>

theorem GetMedias_keeps_video_descriptor:
  "GetMedias_fails camera_without_audio (Dial_Client []) \<and>
   fst (GetMedias camera_without_audio (Dial_Client [])) = None \<and>
   videoConfig (Dial_Client []) = \<lparr>video_Codecs = []\<rparr> \<and>
   videoConfig (snd (GetMedias camera_without_audio (Dial_Client []))) =
     \<lparr>video_Codecs = [''H264'']\<rparr>"
  by (simp add: GetMedias_def GetMedias_fails_def camera_simps)

text \<open>
  C4, amended: when a step of \<^verbatim>\<open>GetMedias\<close> fails on a Client without cached medias, the
  method returns nil and the media list stays nil; the descriptors are not rolled back: as
  soon as the video characteristic is found, the field \<^verbatim>\<open>videoConfig\<close> holds what the
  decoder left in it.
\<close>

theorem GetMedias_failure:
  assumes "Medias c = None" and "GetMedias_fails e c"
  shows "fst (GetMedias e c) = None \<and> Medias (snd (GetMedias e c)) = None \<and>
         (\<forall>acc cv. hap_GetFirstAccessory e = Inr acc \<longrightarrow>
            acc TypeSupportedVideoStreamConfiguration = Some cv \<longrightarrow>
            videoConfig (snd (GetMedias e c)) = snd (ReadTLV8_video e cv (videoConfig c)))"
  using assms GetMedias_fails_None [of c e] GetMedias_videoConfig [of c e] by blast

theorem GetMedias_failure_witness:
  "Medias (Dial_Client []) = None \<and>
   GetMedias_fails camera_without_audio (Dial_Client []) \<and>
   hap_GetFirstAccessory camera_without_audio =
     Inr [TypeSupportedVideoStreamConfiguration \<mapsto> ''video''] \<and>
   fst (GetMedias camera_without_audio (Dial_Client [])) = None \<and>
   Medias (snd (GetMedias camera_without_audio (Dial_Client []))) = None \<and>
   videoConfig (snd (GetMedias camera_without_audio (Dial_Client []))) =
     \<lparr>video_Codecs = [''H264'']\<rparr>"
proof -
  have m: "Medias (Dial_Client []) = None"
    by (simp add: Dial_Client_def)
  have f: "GetMedias_fails camera_without_audio (Dial_Client [])"
    by (simp add: GetMedias_fails_def camera_simps)
  have a: "hap_GetFirstAccessory camera_without_audio =
      Inr [TypeSupportedVideoStreamConfiguration \<mapsto> ''video'']"
    by (simp add: camera_simps)
  have v: "[TypeSupportedVideoStreamConfiguration \<mapsto> ''video'']
      TypeSupportedVideoStreamConfiguration = Some ''video''"
    by simp
  have d: "snd (ReadTLV8_video camera_without_audio ''video'' (videoConfig (Dial_Client []))) =
      \<lparr>video_Codecs = [''H264'']\<rparr>"
    by (simp add: camera_simps)
  from GetMedias_failure [OF m f] a v d m f show ?thesis
    by metis
qed

text \<open>
  C6. \<^verbatim>\<open>GetMedias\<close> is idempotent: after a call that returned a media list, every further
  call, whatever the accessory would answer, returns the same list and leaves the state
  as it is, the trace included: no accessory read and no capability lookup happens.
\<close>

theorem GetMedias_idempotent:
  assumes "GetMedias e c = (Some ms, c')"
  shows "GetMedias e' c' = (Some ms, c')"
proof -
  from assms have "Medias c' = Some ms"
    by (simp add: GetMedias_result_cached [symmetric])
  then show ?thesis
    by (simp add: GetMedias_cached)
qed

theorem GetMedias_idempotent_witness:
  "fst (GetMedias camera_env (Dial_Client [])) =
     Some [\<lparr>media_Kind = ''video'', media_Codecs = [\<lparr>Name = ''H264''\<rparr>]\<rparr>,
           \<lparr>media_Kind = ''audio'', media_Codecs = [\<lparr>Name = ''OPUS''\<rparr>]\<rparr>] \<and>
   GetMedias camera_without_audio (snd (GetMedias camera_env (Dial_Client []))) =
     GetMedias camera_env (Dial_Client [])"
proof -
  have r: "fst (GetMedias camera_env (Dial_Client [])) =
     Some [\<lparr>media_Kind = ''video'', media_Codecs = [\<lparr>Name = ''H264''\<rparr>]\<rparr>,
           \<lparr>media_Kind = ''audio'', media_Codecs = [\<lparr>Name = ''OPUS''\<rparr>]\<rparr>]"
    by (simp add: GetMedias_def camera_simps)
  then have "GetMedias camera_env (Dial_Client []) =
     (Some [\<lparr>media_Kind = ''video'', media_Codecs = [\<lparr>Name = ''H264''\<rparr>]\<rparr>,
            \<lparr>media_Kind = ''audio'', media_Codecs = [\<lparr>Name = ''OPUS''\<rparr>]\<rparr>],
      snd (GetMedias camera_env (Dial_Client [])))"
    by (simp add: prod_eq_iff)
  from GetMedias_idempotent [OF this, of camera_without_audio] r show ?thesis
    by (simp add: prod_eq_iff)
qed

text \<open>
  C9. When \<^verbatim>\<open>GetMedias\<close> returns nil, the media list of the Client is still nil, the next
  call starts again with the read of the accessory description, and when every step of
  that call succeeds it returns the two medias after both capability lookups.
\<close>

theorem GetMedias_failure_not_cached:
  assumes "GetMedias e c = (None, c')"
  shows "Medias c' = None \<and>
         (\<exists>evs. trace (snd (GetMedias e' c')) = trace c' @ EvGetFirstAccessory # evs) \<and>
         (\<forall>acc cv v ca a.
            hap_GetFirstAccessory e' = Inr acc \<longrightarrow>
            acc TypeSupportedVideoStreamConfiguration = Some cv \<longrightarrow>
            ReadTLV8_video e' cv (videoConfig c') = (None, v) \<longrightarrow>
            acc TypeSupportedAudioStreamConfiguration = Some ca \<longrightarrow>
            ReadTLV8_audio e' ca (audioConfig c') = (None, a) \<longrightarrow>
            fst (GetMedias e' c') =
              Some [videoToMedia e' (video_Codecs v), audioToMedia e' (audio_Codecs a)] \<and>
            trace (snd (GetMedias e' c')) =
              trace c' @ [EvGetFirstAccessory,
                          EvGetCharacter TypeSupportedVideoStreamConfiguration,
                          EvReadTLV8 TypeSupportedVideoStreamConfiguration,
                          EvGetCharacter TypeSupportedAudioStreamConfiguration,
                          EvReadTLV8 TypeSupportedAudioStreamConfiguration])"
proof -
  from assms have m: "Medias c' = None"
    by (simp add: GetMedias_result_cached [symmetric])
  from m GetMedias_trace [of c' e'] GetMedias_succeeds [of c' e'] show ?thesis
    by blast
qed

theorem GetMedias_failure_not_cached_witness:
  "fst (GetMedias camera_without_audio (Dial_Client [])) = None \<and>
   Medias (snd (GetMedias camera_without_audio (Dial_Client []))) = None \<and>
   fst (GetMedias camera_env (snd (GetMedias camera_without_audio (Dial_Client [])))) =
     Some [\<lparr>media_Kind = ''video'', media_Codecs = [\<lparr>Name = ''H264''\<rparr>]\<rparr>,
           \<lparr>media_Kind = ''audio'', media_Codecs = [\<lparr>Name = ''OPUS''\<rparr>]\<rparr>]"
proof -
  have r: "fst (GetMedias camera_without_audio (Dial_Client [])) = None"
    by (simp add: GetMedias_def camera_simps)
  then have "GetMedias camera_without_audio (Dial_Client []) =
      (None, snd (GetMedias camera_without_audio (Dial_Client [])))"
    by (simp add: prod_eq_iff)
  from GetMedias_failure_not_cached [OF this, of camera_env] r show ?thesis
    by (simp add: GetMedias_def camera_simps)
qed

section \<open>Start\<close>

lemmas client_simps =
  both_tracks_def audio_only_def still_image_def no_tracks_def busy_server_def pkt_def
  camera_always_answering_def GetMedias_def camera_simps

lemmas Start_streaming_simps =
  Start_streaming_def Let_def srtpEndpoint_def new_Session_def AddSession_def set_OnReadRTP_def
  trackByKind_def RandString_def nth_append

text \<open>
  The guard of \<^verbatim>\<open>Start\<close> is \<^verbatim>\<open>c.Receivers == nil\<close>. A nil receiver list is answered with
  the error "producer without tracks" and the Client is left as it is: no session is
  created, nothing is registered, no collaborator is called.
\<close>

lemma Start_nil_Receivers:
  "Receivers c = None \<Longrightarrow>
   Start e ds c = Some (Inr (Some (Error ''producer without tracks''), c))"
  by (simp add: Start_def)

text \<open>
  C2. \<^verbatim>\<open>Start\<close> on a Client whose receiver list holds zero tracks is to return the error
  "producer without tracks". The guard compares the list with nil and does not test its
  length, so a receiver list that is empty but not nil passes the guard that the nil list
  is caught by, and \<^verbatim>\<open>c.Receivers[0]\<close> panics with an index out of range: \<^verbatim>\<open>Start\<close> returns
  no error at all. This holds for the Client \<open>no_tracks\<close>, and for every Client,
  environment and delivery schedule once the receiver list is the empty list.
\<close>

theorem Start_empty_Receivers_panics:
  "Receivers no_tracks = Some [] \<and>
   Start camera_env [] no_tracks = Some (Inl IndexOutOfRange) \<and>
   Start e ds (c\<lparr>Receivers := Some []\<rparr>) = Some (Inl IndexOutOfRange)"
  by (simp add: Start_def client_simps)

subsection \<open>Sessions and registration\<close>

lemma Start_streaming_panics:
  "Start_streaming e c = Inl p \<Longrightarrow>
   video_Codecs (videoConfig c) = [] \<or> audio_Codecs (audioConfig c) = []"
  by (auto simp: Start_streaming_def Let_def
      split: list.splits prod.splits if_splits option.splits)


lemma trackByKind_indep [simp]:
  "trackByKind e (c\<lparr>draws := d\<rparr>) k = trackByKind e c k"
  by (simp add: trackByKind_def)

lemma Start_streaming_declined:
  assumes "Start_streaming e c = Inr (Some err, c1)"
  shows "snd (NewStream_call e c) = Some err \<and>
         registry c1 = registry c \<and>
         trace c1 = trace c @ [EvNewStream (length (sessions c)) (Suc (length (sessions c)))]"
  using assms
  by (auto simp: Start_streaming_def NewStream_call_def Let_def srtpEndpoint_def
      new_Session_def log_def AddSession_def set_OnReadRTP_def nth_append
      split: list.splits prod.splits if_splits option.splits)

lemma Start_streaming_accepted:
  assumes "Start_streaming e c = Inr (None, c1)"
  shows "snd (NewStream_call e c) = None \<and>
         registry c1 = registry c @ [length (sessions c), Suc (length (sessions c))] \<and>
         trace c1 = trace c @ [EvNewStream (length (sessions c)) (Suc (length (sessions c))),
                               EvAddSession (length (sessions c)),
                               EvAddSession (Suc (length (sessions c)))]"
  using assms
  by (auto simp: Start_streaming_def NewStream_call_def Let_def srtpEndpoint_def
      new_Session_def log_def AddSession_def set_OnReadRTP_def nth_append
      split: list.splits prod.splits if_splits option.splits)

lemma Start_streaming_sessions:
  assumes "Start_streaming e c = Inr (res, c1)"
  shows "videoSession c1 = Some (length (sessions c)) \<and>
         audioSession c1 = Some (Suc (length (sessions c))) \<and>
         length (sessions c1) = length (sessions c) + 2 \<and>
         take (length (sessions c)) (sessions c1) = sessions c \<and>
         Local (sessions c1 ! length (sessions c)) = fst (srtpEndpoint e c) \<and>
         Local (sessions c1 ! Suc (length (sessions c))) =
           fst (srtpEndpoint e (c\<lparr>draws := draws c + 3\<rparr>))"
  using assms
  by (auto simp: Start_streaming_def Let_def srtpEndpoint_def new_Session_def log_def
      AddSession_def set_OnReadRTP_def nth_append nth_list_update
      split: list.splits prod.splits if_splits option.splits)


lemma Stop_registry:
  "registry (snd (Stop e c)) =
     (case audioSession c of None \<Rightarrow> (\<lambda>x. x) | Some a \<Rightarrow> removeAll a)
       ((case videoSession c of None \<Rightarrow> (\<lambda>x. x) | Some v \<Rightarrow> removeAll v) (registry c))"
  by (simp add: Stop_def DelSession_def log_def Let_def split: option.splits)

lemma Start_streaming_Start:
  "Receivers c = Some (r # rs) \<Longrightarrow> Name (Codec r) \<noteq> CodecJPEG e \<Longrightarrow>
   Start_streaming e c = Inr (Some err, c1) \<Longrightarrow> Start e ds c = Some (Inr (Some err, c1))"
  by (simp add: Start_def)

text \<open>
  C5. On the streaming path of \<^verbatim>\<open>Start\<close>, with every registered session an allocated one:
  a panic happens only at the index into an empty codec list, before any session exists;
  when the accessory declines the stream, \<^verbatim>\<open>Start\<close> returns the accessory's error, the only
  new event is the call of \<^verbatim>\<open>NewStream\<close>, the registry is as before, and it is still as
  before after \<^verbatim>\<open>Stop\<close>; when the accessory accepts, the two registrations follow the call
  of \<^verbatim>\<open>NewStream\<close>.
\<close>

theorem Start_registers_after_open:
  assumes "Receivers c = Some (r # rs)" and "Name (Codec r) \<noteq> CodecJPEG e"
    and "\<forall>x\<in>set (registry c). x < length (sessions c)"
  shows "case Start_streaming e c of
           Inl p \<Rightarrow> video_Codecs (videoConfig c) = [] \<or> audio_Codecs (audioConfig c) = []
         | Inr (Some err, c1) \<Rightarrow>
             snd (NewStream_call e c) = Some err \<and>
             Start e ds c = Some (Inr (Some err, c1)) \<and>
             trace c1 = trace c @ [EvNewStream (length (sessions c)) (Suc (length (sessions c)))] \<and>
             registry c1 = registry c \<and>
             registry (snd (Stop e' c1)) = registry c
         | Inr (None, c1) \<Rightarrow>
             snd (NewStream_call e c) = None \<and>
             trace c1 = trace c @ [EvNewStream (length (sessions c)) (Suc (length (sessions c))),
                                   EvAddSession (length (sessions c)),
                                   EvAddSession (Suc (length (sessions c)))] \<and>
             registry c1 = registry c @ [length (sessions c), Suc (length (sessions c))]"
proof (cases "Start_streaming e c")
  case (Inl p)
  then show ?thesis
    using Start_streaming_panics [of e c p] by simp
next
  case (Inr rc)
  obtain res c1 where rc: "rc = (res, c1)"
    by (cases rc)
  show ?thesis
  proof (cases res)
    case None
    with Inr rc have "Start_streaming e c = Inr (None, c1)"
      by simp
    from Start_streaming_accepted [OF this] Inr rc None show ?thesis
      by simp
  next
    case (Some err)
    with Inr rc have s: "Start_streaming e c = Inr (Some err, c1)"
      by simp
    note d = Start_streaming_declined [OF s]
    note n = Start_streaming_sessions [OF s]
    have fresh: "length (sessions c) \<notin> set (registry c)"
      "Suc (length (sessions c)) \<notin> set (registry c)"
      using assms(3) by auto
    have "registry (snd (Stop e' c1)) = registry c"
      using d n fresh by (simp add: Stop_registry)
    with d Start_streaming_Start [OF assms(1,2) s] Inr rc Some show ?thesis
      by simp
  qed
qed

theorem Start_registers_after_open_witness:
  "Receivers busy_server = Some [h264, opus] \<and>
   Name (Codec h264) \<noteq> CodecJPEG camera_declining \<and>
   registry busy_server = [0] \<and>
   length (sessions busy_server) = 1 \<and>
   map_option (map_sum id fst) (Start camera_declining [] busy_server) =
     Some (Inr (Some (Error ''declined''))) \<and>
   videoSession (snd (projr (Start_streaming camera_declining busy_server))) = Some 1 \<and>
   audioSession (snd (projr (Start_streaming camera_declining busy_server))) = Some 2 \<and>
   registry (snd (projr (Start_streaming camera_declining busy_server))) = [0] \<and>
   registry (snd (Stop camera_declining
     (snd (projr (Start_streaming camera_declining busy_server))))) = [0]"
  using Start_registers_after_open
    [of busy_server h264 "[opus]" camera_declining "[]" camera_declining]
  by (simp add: client_simps Start_streaming_simps)



subsection \<open>The MJPEG loop\<close>

lemma startMJPEG_loop_fails:
  "hap_GetImage e (i + n) = Inl err \<Longrightarrow> (\<forall>k<n. \<exists>b. hap_GetImage e (i + k) = Inr b) \<Longrightarrow>
   startMJPEG_loop e r i c =
     Some (err, c\<lparr>trace := trace c @ polls e r i n @ [EvGetImage 1920 1080]\<rparr>)"
proof (induction n arbitrary: i c)
  case 0
  then show ?case
    by (subst startMJPEG_loop.simps) (simp add: log_def)
next
  case (Suc n)
  from Suc.prems(2) obtain b where b: "hap_GetImage e i = Inr b"
    by (metis add.right_neutral zero_less_Suc)
  have f: "hap_GetImage e (Suc i + n) = Inl err"
    using Suc.prems(1) by simp
  have s: "\<forall>k<n. \<exists>b. hap_GetImage e (Suc i + k) = Inr b"
  proof (intro allI impI)
    fix k assume "k < n"
    then have "Suc k < Suc n"
      by simp
    with Suc.prems(2) have "\<exists>b. hap_GetImage e (i + Suc k) = Inr b"
      by blast
    then show "\<exists>b. hap_GetImage e (Suc i + k) = Inr b"
      by simp
  qed
  show ?case
    by (subst startMJPEG_loop.simps) (simp add: b Suc.IH [OF f s] log_def)
qed

lemma startMJPEG_loop_returns:
  "startMJPEG_loop e r i c = Some y \<Longrightarrow> \<exists>k err. hap_GetImage e k = Inl err"
proof (induction rule: startMJPEG_loop.raw_induct [rotated 1, consumes 1])
  case (1 loop e r i c y)
  then show ?case
    by (cases "hap_GetImage e i") auto
qed

lemma startMJPEG_loop_never:
  "\<forall>k. \<exists>b. hap_GetImage e k = Inr b \<Longrightarrow> startMJPEG_loop e r i c = None"
proof (rule ccontr)
  assume a: "\<forall>k. \<exists>b. hap_GetImage e k = Inr b" and "startMJPEG_loop e r i c \<noteq> None"
  then obtain y where "startMJPEG_loop e r i c = Some y"
    by auto
  from startMJPEG_loop_returns [OF this] a show False
    by (metis sum.distinct(1))
qed

text \<open>
  C8. When the codec of the first receiver is the JPEG codec, \<^verbatim>\<open>Start\<close> runs the MJPEG
  loop: if the image request number \<open>n\<close> is the first that fails, \<^verbatim>\<open>Start\<close> returns its
  error after \<open>n\<close> rounds of request and packet write and one more request, with nothing
  after the failed request; if no request ever fails, \<^verbatim>\<open>Start\<close> does not return.
\<close>

theorem Start_MJPEG:
  assumes "Receivers c = Some (r # rs)" and "Name (Codec r) = CodecJPEG e"
  shows "(\<forall>n err. hap_GetImage e n = Inl err \<longrightarrow> (\<forall>k<n. \<exists>b. hap_GetImage e k = Inr b) \<longrightarrow>
            Start e ds c =
              Some (Inr (Some err,
                c\<lparr>trace := trace c @ polls e r 0 n @ [EvGetImage 1920 1080]\<rparr>))) \<and>
         ((\<forall>k. \<exists>b. hap_GetImage e k = Inr b) \<longrightarrow> Start e ds c = None)"
proof (intro conjI allI impI)
  fix n err
  assume "hap_GetImage e n = Inl err" and "\<forall>k<n. \<exists>b. hap_GetImage e k = Inr b"
  then have "startMJPEG_loop e r 0 c =
      Some (err, c\<lparr>trace := trace c @ polls e r 0 n @ [EvGetImage 1920 1080]\<rparr>)"
    using startMJPEG_loop_fails [of e 0 n err r c] by simp
  with assms show "Start e ds c =
      Some (Inr (Some err, c\<lparr>trace := trace c @ polls e r 0 n @ [EvGetImage 1920 1080]\<rparr>))"
    by (simp add: Start_def startMJPEG_def)
next
  assume "\<forall>k. \<exists>b. hap_GetImage e k = Inr b"
  then have "startMJPEG_loop e r 0 c = None"
    by (rule startMJPEG_loop_never)
  with assms show "Start e ds c = None"
    by (simp add: Start_def startMJPEG_def)
qed

theorem Start_MJPEG_witness:
  "Receivers still_image = Some [jpeg] \<and>
   Name (Codec jpeg) = CodecJPEG camera_env \<and>
   hap_GetImage camera_env 2 = Inl (Error ''timeout'') \<and>
   hap_GetImage camera_env 0 = Inr [255, 216] \<and>
   hap_GetImage camera_env 1 = Inr [255, 216] \<and>
   Start camera_env [] still_image =
     Some (Inr (Some (Error ''timeout''),
       still_image\<lparr>trace := trace still_image @
         [EvGetImage 1920 1080, EvWriteRTP jpeg \<lparr>Timestamp = 0, Payload = [255, 216]\<rparr>,
          EvGetImage 1920 1080, EvWriteRTP jpeg \<lparr>Timestamp = 3000, Payload = [255, 216]\<rparr>,
          EvGetImage 1920 1080]\<rparr>)) \<and>
   (\<forall>k. \<exists>b. hap_GetImage camera_always_answering k = Inr b) \<and>
   Start camera_always_answering [] still_image = None"
proof -
  have r: "Receivers still_image = Some [jpeg]"
    by (simp add: client_simps)
  have j: "Name (Codec jpeg) = CodecJPEG camera_env"
    "Name (Codec jpeg) = CodecJPEG camera_always_answering"
    by (simp_all add: client_simps)
  have f: "hap_GetImage camera_env 2 = Inl (Error ''timeout'')"
    by (simp add: client_simps)
  have s: "\<forall>k<2. \<exists>b. hap_GetImage camera_env k = Inr b"
    by (simp add: client_simps)
  have a: "\<forall>k. \<exists>b. hap_GetImage camera_always_answering k = Inr b"
    by (simp add: client_simps)
  have p: "polls camera_env jpeg 0 2 =
      [EvGetImage 1920 1080, EvWriteRTP jpeg \<lparr>Timestamp = 0, Payload = [255, 216]\<rparr>,
       EvGetImage 1920 1080, EvWriteRTP jpeg \<lparr>Timestamp = 3000, Payload = [255, 216]\<rparr>]"
    by (simp add: numeral_2_eq_2 camera_env_def)
  from Start_MJPEG [OF r j(1), of "[]"] f s p
  have 1: "Start camera_env [] still_image =
     Some (Inr (Some (Error ''timeout''),
       still_image\<lparr>trace := trace still_image @
         [EvGetImage 1920 1080, EvWriteRTP jpeg \<lparr>Timestamp = 0, Payload = [255, 216]\<rparr>,
          EvGetImage 1920 1080, EvWriteRTP jpeg \<lparr>Timestamp = 3000, Payload = [255, 216]\<rparr>,
          EvGetImage 1920 1080]\<rparr>))"
    by simp
  from Start_MJPEG [OF r j(2), of "[]"] a
  have 2: "Start camera_always_answering [] still_image = None"
    by blast
  have g: "hap_GetImage camera_env 0 = Inr [255, 216]"
    "hap_GetImage camera_env 1 = Inr [255, 216]"
    by (simp_all add: client_simps)
  from r j f g a 1 2 show ?thesis
    by blast
qed

subsection \<open>The deadline\<close>

lemma Start_streaming_wired:
  assumes "Start_streaming e c = Inr (None, c1)"
    and "trackByKind e c (KindVideo e) = Some vt"
    and "trackByKind e c (KindAudio e) = Some at"
  shows "wired vt at c1 \<and> deadline c1 = clock c + ConnDeadline e \<and> clock c1 = clock c"
  using assms
  by (auto simp: Start_streaming_def Let_def srtpEndpoint_def new_Session_def log_def
      AddSession_def set_OnReadRTP_def nth_append nth_list_update wired_def trackByKind_def
      split: list.splits prod.splits if_splits option.splits)

lemma wired_clock [simp]: "wired vt at (c\<lparr>clock := t\<rparr>) = wired vt at c"
  by (simp add: wired_def split: option.splits)

lemma deliver_video:
  "wired vt at c \<Longrightarrow>
   deliver e ToVideo p c =
     Inr (c\<lparr>deadline := clock c + ConnDeadline e,
           trace := trace c @ [EvTimerReset (clock c), EvWriteRTP vt p]\<rparr>)"
  by (auto simp: wired_def deliver_def deref_def session_of_def call_handler_def log_def Let_def
      split: option.splits)

lemma deliver_audio:
  "wired vt at c \<Longrightarrow>
   deliver e ToAudio p c = Inr (c\<lparr>trace := trace c @ [EvWriteRTP at p]\<rparr>)"
  by (auto simp: wired_def deliver_def deref_def session_of_def call_handler_def log_def Let_def
      split: option.splits)

lemma await_expiry:
  assumes "wired vt at c" and "deadline c = t0 + ConnDeadline e"
    and "sorted (map fst ds)" and "\<forall>d\<in>set ds. t0 \<le> fst d"
  shows "\<exists>c'. await_deadline e ds c = Inr c' \<and> clock c' = deadline c' \<and>
           (\<exists>t1. deadline c' = t1 + ConnDeadline e \<and>
              (t1 = t0 \<or> (\<exists>p. (t1, ToVideo, p) \<in> set ds)) \<and>
              (\<forall>(t, w, p)\<in>set ds. w = ToVideo \<and> t1 < t \<longrightarrow> deadline c' \<le> t)) \<and>
           (\<forall>r. (r = t0 \<or> (\<exists>p. (r, ToVideo, p) \<in> set ds)) \<and>
                (\<forall>(t, w, p)\<in>set ds. w = ToVideo \<and> r < t \<longrightarrow> r + ConnDeadline e \<le> t) \<longrightarrow>
                deadline c' \<le> r + ConnDeadline e)"
  using assms
proof (induction ds arbitrary: c t0)
  case Nil
  then show ?case
    by auto
next
  case (Cons d ds)
  obtain t w p where d: "d = (t, w, p)"
    by (cases d)
  from Cons.prems(3) d have later: "\<forall>x\<in>set ds. t \<le> fst x" and srt: "sorted (map fst ds)"
    by auto
  from Cons.prems(4) d have t0t: "t0 \<le> t"
    by simp
  show ?case
  proof (cases "deadline c \<le> t")
    case True
    with later have "\<forall>x\<in>set (d # ds). deadline c \<le> fst x"
      using d by auto
    moreover have "\<forall>r. (r = t0 \<or> (\<exists>p. (r, ToVideo, p) \<in> set (d # ds))) \<longrightarrow> t0 \<le> r"
      using Cons.prems(4) by force
    ultimately show ?thesis
      using True Cons.prems(2) d by (auto intro!: exI [of _ t0])
  next
    case False
    show ?thesis
    proof (cases w)
      case ToVideo
      let ?c2 = "c\<lparr>clock := t, deadline := t + ConnDeadline e,
                   trace := trace c @ [EvTimerReset t, EvWriteRTP vt p]\<rparr>"
      have dl: "deliver e ToVideo p (c\<lparr>clock := t\<rparr>) = Inr ?c2"
        using deliver_video [of vt at "c\<lparr>clock := t\<rparr>" e p] Cons.prems(1) by simp
      have w2: "wired vt at ?c2"
        using Cons.prems(1) by (simp add: wired_def split: option.splits)
      have d2: "deadline ?c2 = t + ConnDeadline e"
        by simp
      from Cons.IH [OF w2 d2 srt later]
      obtain c' t1 where c': "await_deadline e ds ?c2 = Inr c'" "clock c' = deadline c'"
        "deadline c' = t1 + ConnDeadline e"
        "t1 = t \<or> (\<exists>p. (t1, ToVideo, p) \<in> set ds)"
        "\<forall>(t, w, p)\<in>set ds. w = ToVideo \<and> t1 < t \<longrightarrow> deadline c' \<le> t"
        and first: "\<forall>r. (r = t \<or> (\<exists>p. (r, ToVideo, p) \<in> set ds)) \<and>
                (\<forall>(t, w, p)\<in>set ds. w = ToVideo \<and> r < t \<longrightarrow> r + ConnDeadline e \<le> t) \<longrightarrow>
                deadline c' \<le> r + ConnDeadline e"
        by blast
      from c'(4) later have tt1: "t \<le> t1"
        by force
      have run: "await_deadline e (d # ds) c = Inr c'"
        using d ToVideo False dl c'(1) by simp
      have reset: "t1 = t0 \<or> (\<exists>p. (t1, ToVideo, p) \<in> set (d # ds))"
        using c'(4) d ToVideo by auto
      have quiet: "\<forall>(t, w, p)\<in>set (d # ds). w = ToVideo \<and> t1 < t \<longrightarrow> deadline c' \<le> t"
        using c'(5) d tt1 by auto
      have "deadline c' \<le> r + ConnDeadline e"
        if r: "r = t0 \<or> (\<exists>p. (r, ToVideo, p) \<in> set (d # ds))"
          and q: "\<forall>(t, w, p)\<in>set (d # ds). w = ToVideo \<and> r < t \<longrightarrow> r + ConnDeadline e \<le> t"
        for r
      proof -
        from q have q': "\<forall>(t, w, p)\<in>set ds. w = ToVideo \<and> r < t \<longrightarrow> r + ConnDeadline e \<le> t"
          by simp
        from q d ToVideo have hd: "r < t \<longrightarrow> r + ConnDeadline e \<le> t"
          by simp
        from r consider "r = t" | "\<exists>p. (r, ToVideo, p) \<in> set ds" | "r = t0" "r < t"
          using d t0t by force
        then show ?thesis
        proof cases
          case 1
          with first q' show ?thesis
            by blast
        next
          case 2
          with first q' show ?thesis
            by blast
        next
          case 3
          with hd False Cons.prems(2) show ?thesis
            by simp
        qed
      qed
      with run c'(2,3) reset quiet show ?thesis
        by blast
    next
      case ToAudio
      let ?c2 = "c\<lparr>clock := t, trace := trace c @ [EvWriteRTP at p]\<rparr>"
      have dl: "deliver e ToAudio p (c\<lparr>clock := t\<rparr>) = Inr ?c2"
        using deliver_audio [of vt at "c\<lparr>clock := t\<rparr>" e p] Cons.prems(1) by simp
      have w2: "wired vt at ?c2"
        using Cons.prems(1) by (simp add: wired_def split: option.splits)
      have d2: "deadline ?c2 = t0 + ConnDeadline e"
        using Cons.prems(2) by simp
      have l2: "\<forall>x\<in>set ds. t0 \<le> fst x"
        using Cons.prems(4) by simp
      from Cons.IH [OF w2 d2 srt l2]
      obtain c' t1 where c': "await_deadline e ds ?c2 = Inr c'" "clock c' = deadline c'"
        "deadline c' = t1 + ConnDeadline e"
        "t1 = t0 \<or> (\<exists>p. (t1, ToVideo, p) \<in> set ds)"
        "\<forall>(t, w, p)\<in>set ds. w = ToVideo \<and> t1 < t \<longrightarrow> deadline c' \<le> t"
        and first: "\<forall>r. (r = t0 \<or> (\<exists>p. (r, ToVideo, p) \<in> set ds)) \<and>
                (\<forall>(t, w, p)\<in>set ds. w = ToVideo \<and> r < t \<longrightarrow> r + ConnDeadline e \<le> t) \<longrightarrow>
                deadline c' \<le> r + ConnDeadline e"
        by blast
      have run: "await_deadline e (d # ds) c = Inr c'"
        using d ToAudio False dl c'(1) by simp
      have reset: "t1 = t0 \<or> (\<exists>p. (t1, ToVideo, p) \<in> set (d # ds))"
        using c'(4) by auto
      have quiet: "\<forall>(t, w, p)\<in>set (d # ds). w = ToVideo \<and> t1 < t \<longrightarrow> deadline c' \<le> t"
        using c'(5) d ToAudio by auto
      have "deadline c' \<le> r + ConnDeadline e"
        if r: "r = t0 \<or> (\<exists>p. (r, ToVideo, p) \<in> set (d # ds))"
          and q: "\<forall>(t, w, p)\<in>set (d # ds). w = ToVideo \<and> r < t \<longrightarrow> r + ConnDeadline e \<le> t"
        for r
      proof -
        from q have q': "\<forall>(t, w, p)\<in>set ds. w = ToVideo \<and> r < t \<longrightarrow> r + ConnDeadline e \<le> t"
          by simp
        from r d ToAudio have "r = t0 \<or> (\<exists>p. (r, ToVideo, p) \<in> set ds)"
          by auto
        with first q' show ?thesis
          by blast
      qed
      with run c'(2,3) reset quiet show ?thesis
        by blast
    qed
  qed
qed

text \<open>
  C3, as stated: with a video and an audio track, a packet delivered to either session
  resets the deadline. The audio session's handler is \<^verbatim>\<open>audioTrack.WriteRTP\<close> itself: an
  audio packet that arrives at time 3, with the timer due at 5, leaves it due at 5 (not
  at 8), and \<^verbatim>\<open>Start\<close> returns at 5.
\<close>

theorem audio_packet_keeps_deadline:
  "fst (projr (Start_streaming camera_env both_tracks)) = None \<and>
   deadline (snd (projr (Start_streaming camera_env both_tracks))) = 5 \<and>
   map_sum id deadline
     (deliver camera_env ToAudio pkt
        ((snd (projr (Start_streaming camera_env both_tracks)))\<lparr>clock := 3\<rparr>)) = Inr 5 \<and>
   3 + ConnDeadline camera_env = 8 \<and>
   map_option (map_sum id (map_prod id clock))
     (Start camera_env [(3, ToAudio, pkt)] both_tracks) = Some (Inr (None, 5))"
  by (simp add: client_simps Start_streaming_simps Start_def deliver_def deref_def
      session_of_def call_handler_def)

text \<open>
  C3, amended: after the setup of \<^verbatim>\<open>Start\<close> in streaming mode with a video and an audio
  track, a packet delivered to the video session at time \<open>t\<close> moves the expiry of the
  deadline timer to \<open>t\<close> plus the window and is written to the video track; a packet
  delivered to the audio session is written to the audio track and leaves the timer as it
  is; and \<^verbatim>\<open>Start\<close> returns with no error at the first expiry. Call a reset point the
  creation of the timer or the arrival of a video packet, and call it quiet when no video
  packet arrives after it and less than one window later. \<^verbatim>\<open>Start\<close> returns one window
  after a quiet reset point, and no quiet reset point lies earlier: the time of return is
  the least time that is one window after a quiet reset point. Video packets that arrive
  at or after that time are not waited for.
\<close>

theorem Start_deadline:
  assumes "Receivers c = Some (r # rs)" and "Name (Codec r) \<noteq> CodecJPEG e"
    and "trackByKind e c (KindVideo e) = Some vt"
    and "trackByKind e c (KindAudio e) = Some at"
    and "Start_streaming e c = Inr (None, c1)"
    and "sorted (map fst ds)" and "\<forall>d\<in>set ds. clock c \<le> fst d"
  shows "deliver e ToVideo p (c1\<lparr>clock := t\<rparr>) =
           Inr (c1\<lparr>clock := t, deadline := t + ConnDeadline e,
                  trace := trace c1 @ [EvTimerReset t, EvWriteRTP vt p]\<rparr>) \<and>
         deliver e ToAudio p (c1\<lparr>clock := t\<rparr>) =
           Inr (c1\<lparr>clock := t, trace := trace c1 @ [EvWriteRTP at p]\<rparr>) \<and>
         (\<exists>c' t1. Start e ds c = Some (Inr (None, c')) \<and>
            clock c' = t1 + ConnDeadline e \<and>
            (t1 = clock c \<or> (\<exists>q. (t1, ToVideo, q) \<in> set ds)) \<and>
            (\<forall>(t, w, q)\<in>set ds. w = ToVideo \<and> t1 < t \<longrightarrow> clock c' \<le> t) \<and>
            (\<forall>t0. (t0 = clock c \<or> (\<exists>q. (t0, ToVideo, q) \<in> set ds)) \<and>
                (\<forall>(t, w, q)\<in>set ds. w = ToVideo \<and> t0 < t \<longrightarrow> t0 + ConnDeadline e \<le> t) \<longrightarrow>
                clock c' \<le> t0 + ConnDeadline e))"
proof -
  note w = Start_streaming_wired [OF assms(5,3,4)]
  from w have wt: "wired vt at (c1\<lparr>clock := t\<rparr>)"
    by simp
  have v: "deliver e ToVideo p (c1\<lparr>clock := t\<rparr>) =
           Inr (c1\<lparr>clock := t, deadline := t + ConnDeadline e,
                  trace := trace c1 @ [EvTimerReset t, EvWriteRTP vt p]\<rparr>)"
    using deliver_video [OF wt, of e p] by simp
  have a: "deliver e ToAudio p (c1\<lparr>clock := t\<rparr>) =
           Inr (c1\<lparr>clock := t, trace := trace c1 @ [EvWriteRTP at p]\<rparr>)"
    using deliver_audio [OF wt, of e p] by simp
  from w have w1: "wired vt at c1" and d1: "deadline c1 = clock c + ConnDeadline e"
    by simp_all
  from await_expiry [OF w1 d1 assms(6,7)]
  obtain c' t1 where c': "await_deadline e ds c1 = Inr c'" "clock c' = deadline c'"
    "deadline c' = t1 + ConnDeadline e"
    "t1 = clock c \<or> (\<exists>p. (t1, ToVideo, p) \<in> set ds)"
    "\<forall>(t, w, p)\<in>set ds. w = ToVideo \<and> t1 < t \<longrightarrow> deadline c' \<le> t"
    and first: "\<forall>r. (r = clock c \<or> (\<exists>p. (r, ToVideo, p) \<in> set ds)) \<and>
        (\<forall>(t, w, p)\<in>set ds. w = ToVideo \<and> r < t \<longrightarrow> r + ConnDeadline e \<le> t) \<longrightarrow>
        deadline c' \<le> r + ConnDeadline e"
    by blast
  have "Start e ds c = Some (Inr (None, c'))"
    using assms(1,2,5) c'(1) by (simp add: Start_def)
  with c' first have "\<exists>c' t1. Start e ds c = Some (Inr (None, c')) \<and>
            clock c' = t1 + ConnDeadline e \<and>
            (t1 = clock c \<or> (\<exists>q. (t1, ToVideo, q) \<in> set ds)) \<and>
            (\<forall>(t, w, q)\<in>set ds. w = ToVideo \<and> t1 < t \<longrightarrow> clock c' \<le> t) \<and>
            (\<forall>t0. (t0 = clock c \<or> (\<exists>q. (t0, ToVideo, q) \<in> set ds)) \<and>
                (\<forall>(t, w, q)\<in>set ds. w = ToVideo \<and> t0 < t \<longrightarrow> t0 + ConnDeadline e \<le> t) \<longrightarrow>
                clock c' \<le> t0 + ConnDeadline e)"
    by (intro exI [of _ c'] exI [of _ t1]) simp
  with v a show ?thesis
    by blast
qed

theorem Start_deadline_witness:
  "Receivers both_tracks = Some [h264, opus] \<and>
   Name (Codec h264) \<noteq> CodecJPEG camera_env \<and>
   trackByKind camera_env both_tracks (KindVideo camera_env) = Some h264 \<and>
   trackByKind camera_env both_tracks (KindAudio camera_env) = Some opus \<and>
   fst (projr (Start_streaming camera_env both_tracks)) = None \<and>
   sorted (map fst [(1::nat, ToVideo, pkt), (3, ToAudio, pkt), (4, ToVideo, pkt),
                    (7, ToAudio, pkt), (100, ToVideo, pkt)]) \<and>
   list_all (\<lambda>d. clock both_tracks \<le> fst d)
     [(1::nat, ToVideo, pkt), (3, ToAudio, pkt), (4, ToVideo, pkt),
      (7, ToAudio, pkt), (100, ToVideo, pkt)] \<and>
   map_sum id deadline
     (deliver camera_env ToVideo pkt
        ((snd (projr (Start_streaming camera_env both_tracks)))\<lparr>clock := 3\<rparr>)) = Inr 8 \<and>
   map_option (map_sum id (map_prod id clock))
     (Start camera_env [(1, ToVideo, pkt), (3, ToAudio, pkt), (4, ToVideo, pkt),
                        (7, ToAudio, pkt), (100, ToVideo, pkt)] both_tracks) =
     Some (Inr (None, 9)) \<and>
   map_option (map_sum id (map_prod id clock))
     (Start camera_env [(1, ToVideo, pkt), (100, ToVideo, pkt)] both_tracks) =
     Some (Inr (None, 6))"
proof -
  have h1: "Receivers both_tracks = Some (h264 # [opus])"
    by (simp add: client_simps)
  have h2: "Name (Codec h264) \<noteq> CodecJPEG camera_env"
    by (simp add: client_simps)
  have h3: "trackByKind camera_env both_tracks (KindVideo camera_env) = Some h264"
    by (simp add: client_simps trackByKind_def)
  have h4: "trackByKind camera_env both_tracks (KindAudio camera_env) = Some opus"
    by (simp add: client_simps trackByKind_def)
  have h5: "Start_streaming camera_env both_tracks =
      Inr (None, snd (projr (Start_streaming camera_env both_tracks)))"
    by (simp add: client_simps Start_streaming_simps)
  have h6: "sorted (map fst [(1::nat, ToVideo, pkt), (3, ToAudio, pkt), (4, ToVideo, pkt),
                             (7, ToAudio, pkt), (100, ToVideo, pkt)])"
    by simp
  have h7: "\<forall>d\<in>set [(1::nat, ToVideo, pkt), (3, ToAudio, pkt), (4, ToVideo, pkt),
                     (7, ToAudio, pkt), (100, ToVideo, pkt)].
      clock both_tracks \<le> fst d"
    by (simp add: client_simps)
  from Start_deadline [OF h1 h2 h3 h4 h5 h6 h7, of pkt 3] h1 h2 h3 h4 h6
  show ?thesis
    by (simp add: client_simps Start_streaming_simps Start_def deliver_def deref_def
        session_of_def call_handler_def)
qed

section \<open>limitter\<close>

lemma int64_id: "- (2 ^ 63) \<le> x \<Longrightarrow> x < 2 ^ 63 \<Longrightarrow> int64 x = x"
  by (simp add: int64_def)

lemma int64_le: "0 \<le> x \<Longrightarrow> int64 x \<le> x"
proof -
  assume "0 \<le> x"
  then have "(x + 2 ^ 63) mod 2 ^ 64 \<le> x + 2 ^ 63"
    by (intro zmod_le_nonneg_dividend) simp
  then show ?thesis
    by (simp add: int64_def)
qed

lemma quo_nonneg: "0 \<le> a \<Longrightarrow> 0 < b \<Longrightarrow> quo a b = a div b"
  by (cases "a = 0") (simp_all add: quo_def)

lemma quo_neg: "a < 0 \<Longrightarrow> 0 < b \<Longrightarrow> quo a b \<le> 0"
  by (simp add: quo_def pos_imp_zdiv_nonneg_iff)

lemma elapsed_le:
  assumes "t0 \<le> now"
  shows "quo (int64 (Sub now t0 * sampleRate)) Second \<le> (now - t0) * 16000 div 1000000000"
proof -
  let ?d = "Sub now t0"
  have d: "0 \<le> ?d" "?d \<le> now - t0"
    using assms by (simp_all add: Sub_def)
  let ?x = "int64 (?d * 16000)"
  have x: "?x \<le> ?d * 16000"
    using d(1) by (intro int64_le) simp
  have r: "0 \<le> (now - t0) * 16000 div 1000000000"
    using assms by (simp add: pos_imp_zdiv_nonneg_iff)
  show ?thesis
  proof (cases "?x < 0")
    case True
    then have "quo ?x 1000000000 \<le> 0"
      by (intro quo_neg) simp_all
    with r show ?thesis
      by (simp add: sampleRate_def Second_def)
  next
    case False
    then have "quo ?x 1000000000 = ?x div 1000000000"
      by (intro quo_nonneg) simp_all
    also have "\<dots> \<le> (?d * 16000) div 1000000000"
      using x by (intro zdiv_mono1) simp_all
    also have "\<dots> \<le> (now - t0) * 16000 div 1000000000"
      using d(2) by (intro zdiv_mono1) simp_all
    finally show ?thesis
      by (simp add: sampleRate_def Second_def)
  qed
qed

lemma limitter_step:
  assumes "send s = 480 * m" and "0 \<le> m" and "480 * (m + 1) < 2 ^ 63"
  shows "limitter s now p = (s, None) \<or>
         limitter s now p =
           ((if m = 0 then s\<lparr>firstTime := now\<rparr> else s)\<lparr>send := 480 * (m + 1)\<rparr>,
            Some (p\<lparr>Timestamp := word_of_int (480 * (m + 1))\<rparr>))"
proof -
  have "int64 (480 * m + 480) = 480 * m + 480"
    using assms by (intro int64_id) simp_all
  moreover have "int64 480 = 480"
    by (simp add: int64_def)
  ultimately show ?thesis
    using assms
    by (simp add: limitter_def limitter_forward_def Let_def sampleSize_def algebra_simps)
qed

lemma limitter_first:
  "limitter limitter_init now p =
     (\<lparr>send = 480, firstTime = now\<rparr>, Some (p\<lparr>Timestamp := 480\<rparr>))"
  by (simp add: limitter_def limitter_forward_def limitter_init_def sampleSize_def int64_def)

lemma limitter_drops:
  assumes "send s = 480 * m" and "1 \<le> m" and "480 * (m + 1) < 2 ^ 63"
    and "firstTime s \<le> now"
    and "send s + 480 > (now - firstTime s) * 16000 div 1000000000"
  shows "limitter s now p = (s, None)"
proof -
  have "int64 (480 * m + 480) = 480 * m + 480"
    using assms by (intro int64_id) simp_all
  moreover note elapsed_le [OF assms(4)]
  ultimately show ?thesis
    using assms by (simp add: limitter_def Let_def sampleSize_def)
qed

lemma limitter_run_invariant:
  assumes "send s = 480 * int m" and "480 * (int m + int (length ps)) < 2 ^ 63"
  shows "send (limitter_vars_after s ps) =
           480 * int (m + length (forwarded (limitter_run s ps))) \<and>
         length (forwarded (limitter_run s ps)) \<le> length ps \<and>
         (1 \<le> m \<longrightarrow> firstTime (limitter_vars_after s ps) = firstTime s) \<and>
         (\<forall>k<length (forwarded (limitter_run s ps)).
            Timestamp (forwarded (limitter_run s ps) ! k) = word_of_nat (480 * (m + k + 1)))"
  using assms
proof (induction ps arbitrary: s m)
  case Nil
  then show ?case
    by simp
next
  case (Cons x ps)
  obtain now p where x: "x = (now, p)"
    by (cases x)
  have b: "480 * (int m + 1) < 2 ^ 63"
    using Cons.prems(2) by simp
  from limitter_step [OF Cons.prems(1) _ b, of now p]
  consider (dropped) "limitter s now p = (s, None)"
    | (sent) "limitter s now p =
        ((if int m = 0 then s\<lparr>firstTime := now\<rparr> else s)\<lparr>send := 480 * (int m + 1)\<rparr>,
         Some (p\<lparr>Timestamp := word_of_int (480 * (int m + 1))\<rparr>))"
    by auto
  then show ?case
  proof cases
    case dropped
    have "480 * (int m + int (length ps)) < 2 ^ 63"
      using Cons.prems(2) by simp
    from Cons.IH [OF Cons.prems(1) this] dropped x show ?thesis
      by simp
  next
    case sent
    let ?s' = "(if int m = 0 then s\<lparr>firstTime := now\<rparr> else s)\<lparr>send := 480 * (int m + 1)\<rparr>"
    have s': "send ?s' = 480 * int (Suc m)"
      by simp
    have b': "480 * (int (Suc m) + int (length ps)) < 2 ^ 63"
      using Cons.prems(2) by simp
    note ih = Cons.IH [OF s' b']
    have f: "1 \<le> m \<longrightarrow> firstTime ?s' = firstTime s"
      by simp
    have ts: "word_of_int (480 * (int m + 1)) = (word_of_nat (480 * (m + 0 + 1)) :: 32 word)"
      by (simp add: algebra_simps)
    have run: "limitter_run s (x # ps) =
        Some (p\<lparr>Timestamp := word_of_int (480 * (int m + 1))\<rparr>) # limitter_run ?s' ps"
      and after: "limitter_vars_after s (x # ps) = limitter_vars_after ?s' ps"
      using sent x by simp_all
    have 1: "send (limitter_vars_after s (x # ps)) =
        480 * int (m + length (forwarded (limitter_run s (x # ps))))"
      using ih by (simp add: run after)
    have 2: "length (forwarded (limitter_run s (x # ps))) \<le> length (x # ps)"
      using ih by (simp add: run)
    have 3: "1 \<le> m \<longrightarrow> firstTime (limitter_vars_after s (x # ps)) = firstTime s"
      using ih f by (cases "m = 0") (simp_all add: after)
    have 4: "\<forall>k<length (forwarded (limitter_run s (x # ps))).
        Timestamp (forwarded (limitter_run s (x # ps)) ! k) = word_of_nat (480 * (m + k + 1))"
    proof (intro allI impI)
      fix k
      assume k: "k < length (forwarded (limitter_run s (x # ps)))"
      show "Timestamp (forwarded (limitter_run s (x # ps)) ! k) = word_of_nat (480 * (m + k + 1))"
      proof (cases k)
        case 0
        then show ?thesis
          using ts by (simp add: run)
      next
        case (Suc j)
        with k have "j < length (forwarded (limitter_run ?s' ps))"
          by (simp add: run)
        with ih have "Timestamp (forwarded (limitter_run ?s' ps) ! j) =
            word_of_nat (480 * (Suc m + j + 1))"
          by blast
        with Suc show ?thesis
          by (simp add: run)
      qed
    qed
    from 1 2 3 4 show ?thesis
      by blast
  qed
qed

lemma limitter_run_nth:
  "limitter_run s (pre @ (now, p) # post) ! length pre =
     snd (limitter (limitter_vars_after s pre) now p)"
  by (induction pre arbitrary: s) (auto simp: split_beta)

lemma timestamp_step:
  "(word_of_nat (480 * (k + 2)) :: 32 word) = word_of_nat (480 * (k + 1)) + 480"
  by (simp add: algebra_simps)

lemma timestamp_mono:
  assumes "480 * (int k + 2) < 2 ^ 32"
  shows "unat (word_of_nat (480 * (k + 1)) :: 32 word) <
         unat (word_of_nat (480 * (k + 2)) :: 32 word)"
proof -
  from assms have "int (480 * (k + 2)) < int (2 ^ 32)"
    by simp
  then have b: "480 * (k + 2) < (2 ^ 32 :: nat)"
    by (simp only: of_nat_less_iff)
  then have b': "480 * (k + 1) < (2 ^ 32 :: nat)"
    by simp
  have 1: "unat (word_of_nat (480 * (k + 1)) :: 32 word) = 480 * (k + 1)"
    using b' by (intro of_nat_inverse [OF refl]) simp
  have 2: "unat (word_of_nat (480 * (k + 2)) :: 32 word) = 480 * (k + 2)"
    using b by (intro of_nat_inverse [OF refl]) simp
  show ?thesis
    by (simp only: 1 2) simp
qed

text \<open>
  C7, amended: for every stream of packets whose arrival instants do not decrease and that
  is short enough for the running total to stay within \<^verbatim>\<open>int64\<close>, the pacer forwards the
  first packet, stamped 480; the \<open>k\<close>-th forwarded packet carries the running total
  \<open>480 * k\<close> reduced modulo \<open>2 ^ 32\<close>, so each stamp is the one before plus 480 in 32-bit
  arithmetic, and the stamps increase as long as the running total is below \<open>2 ^ 32\<close>;
  the running total is 480 times the number of packets forwarded so far, the start is
  the instant of the first packet, and every later packet for which the running total
  plus 480 exceeds the elapsed sample time is dropped.
\<close>

theorem limitter_paces:
  assumes "sorted (map fst ((t0, p0) # ps))" and "480 * (int (length ps) + 1) < 2 ^ 63"
  shows "limitter_run limitter_init ((t0, p0) # ps) ! 0 = Some (p0\<lparr>Timestamp := 480\<rparr>) \<and>
         (\<forall>k<length (paced ((t0, p0) # ps)).
            Timestamp (paced ((t0, p0) # ps) ! k) = word_of_nat (480 * (k + 1))) \<and>
         (\<forall>k. Suc k < length (paced ((t0, p0) # ps)) \<longrightarrow>
            Timestamp (paced ((t0, p0) # ps) ! Suc k) =
              Timestamp (paced ((t0, p0) # ps) ! k) + 480 \<and>
            (480 * (int k + 2) < 2 ^ 32 \<longrightarrow>
               unat (Timestamp (paced ((t0, p0) # ps) ! k)) <
               unat (Timestamp (paced ((t0, p0) # ps) ! Suc k)))) \<and>
         (\<forall>pre now p post. ps = pre @ (now, p) # post \<longrightarrow>
            send (limitter_vars_after limitter_init ((t0, p0) # pre)) =
              480 * int (length (paced ((t0, p0) # pre))) \<and>
            firstTime (limitter_vars_after limitter_init ((t0, p0) # pre)) = t0 \<and>
            (send (limitter_vars_after limitter_init ((t0, p0) # pre)) + 480 >
               (now - t0) * 16000 div 1000000000 \<longrightarrow>
             limitter_run limitter_init ((t0, p0) # ps) ! Suc (length pre) = None))"
proof -
  let ?S = "(t0, p0) # ps"
  let ?s1 = "\<lparr>send = 480, firstTime = t0\<rparr>"
  have run: "limitter_run limitter_init ?S = Some (p0\<lparr>Timestamp := 480\<rparr>) # limitter_run ?s1 ps"
    by (simp add: limitter_first)
  have first: "limitter_run limitter_init ?S ! 0 = Some (p0\<lparr>Timestamp := 480\<rparr>)"
    by (simp add: limitter_first)
  have i0: "send limitter_init = 480 * int 0"
    by (simp add: limitter_init_def)
  have b0: "480 * (int 0 + int (length ?S)) < 2 ^ 63"
    using assms(2) by simp
  note inv = limitter_run_invariant [OF i0 b0]
  have stamps: "\<forall>k<length (paced ?S). Timestamp (paced ?S ! k) = word_of_nat (480 * (k + 1))"
    using inv by (simp add: paced_def)
  have steps: "\<forall>k. Suc k < length (paced ?S) \<longrightarrow>
      Timestamp (paced ?S ! Suc k) = Timestamp (paced ?S ! k) + 480 \<and>
      (480 * (int k + 2) < 2 ^ 32 \<longrightarrow>
         unat (Timestamp (paced ?S ! k)) < unat (Timestamp (paced ?S ! Suc k)))"
  proof (intro allI impI)
    fix k
    assume k: "Suc k < length (paced ?S)"
    with stamps have a: "Timestamp (paced ?S ! Suc k) = word_of_nat (480 * (k + 2))"
      and b: "Timestamp (paced ?S ! k) = word_of_nat (480 * (k + 1))"
      by simp_all
    show "Timestamp (paced ?S ! Suc k) = Timestamp (paced ?S ! k) + 480 \<and>
      (480 * (int k + 2) < 2 ^ 32 \<longrightarrow>
         unat (Timestamp (paced ?S ! k)) < unat (Timestamp (paced ?S ! Suc k)))"
      using timestamp_step [of k] timestamp_mono [of k] by (simp only: a b) simp
  qed
  have drops: "\<forall>pre now p post. ps = pre @ (now, p) # post \<longrightarrow>
      send (limitter_vars_after limitter_init ((t0, p0) # pre)) =
        480 * int (length (paced ((t0, p0) # pre))) \<and>
      firstTime (limitter_vars_after limitter_init ((t0, p0) # pre)) = t0 \<and>
      (send (limitter_vars_after limitter_init ((t0, p0) # pre)) + 480 >
         (now - t0) * 16000 div 1000000000 \<longrightarrow>
       limitter_run limitter_init ?S ! Suc (length pre) = None)"
  proof (intro allI impI)
    fix pre now p post
    assume ps: "ps = pre @ (now, p) # post"
    let ?s = "limitter_vars_after ?s1 pre"
    let ?n = "length (forwarded (limitter_run ?s1 pre))"
    have after: "limitter_vars_after limitter_init ((t0, p0) # pre) = ?s"
      by (simp add: limitter_first)
    have pc: "length (paced ((t0, p0) # pre)) = Suc ?n"
      by (simp add: paced_def limitter_first)
    have i1: "send ?s1 = 480 * int 1"
      by simp
    have b1: "480 * (int 1 + int (length pre)) < 2 ^ 63"
      using assms(2) ps by simp
    note inv1 = limitter_run_invariant [OF i1 b1]
    from inv1 have sd: "send ?s = 480 * int (Suc ?n)" and le: "?n \<le> length pre"
      and ft: "firstTime ?s = t0"
      by simp_all
    have now: "t0 \<le> now"
      using assms(1) ps by simp
    have d: "limitter ?s now p = (?s, None)"
      if "send ?s + 480 > (now - t0) * 16000 div 1000000000"
    proof (rule limitter_drops [where m = "int (Suc ?n)"])
      show "send ?s = 480 * int (Suc ?n)"
        by (rule sd)
      show "1 \<le> int (Suc ?n)"
        by simp
      show "480 * (int (Suc ?n) + 1) < 2 ^ 63"
        using le assms(2) ps by simp
      show "firstTime ?s \<le> now"
        using ft now by simp
      show "(now - firstTime ?s) * 16000 div 1000000000 < send ?s + 480"
        using that ft by simp
    qed
    have nth: "limitter_run limitter_init ?S ! Suc (length pre) = snd (limitter ?s now p)"
      using limitter_run_nth [of ?s1 pre now p post] by (simp add: limitter_first ps)
    show "send (limitter_vars_after limitter_init ((t0, p0) # pre)) =
        480 * int (length (paced ((t0, p0) # pre))) \<and>
      firstTime (limitter_vars_after limitter_init ((t0, p0) # pre)) = t0 \<and>
      (send (limitter_vars_after limitter_init ((t0, p0) # pre)) + 480 >
         (now - t0) * 16000 div 1000000000 \<longrightarrow>
       limitter_run limitter_init ?S ! Suc (length pre) = None)"
      using sd ft d nth by (simp only: after pc) simp
  qed
  from first stamps steps drops show ?thesis
    by blast
qed

theorem limitter_paces_witness:
  "sorted (map fst [(0::int, pkt), (10000000, pkt), (60000000, pkt), (70000000, pkt)]) \<and>
   480 * (int (length [(10000000::int, pkt), (60000000, pkt), (70000000, pkt)]) + 1) < 2 ^ 63 \<and>
   limitter_run limitter_init [(0, pkt), (10000000, pkt), (60000000, pkt), (70000000, pkt)] =
     [Some (pkt\<lparr>Timestamp := 480\<rparr>), None, Some (pkt\<lparr>Timestamp := 960\<rparr>), None] \<and>
   paced [(0, pkt), (10000000, pkt), (60000000, pkt), (70000000, pkt)] =
     [pkt\<lparr>Timestamp := 480\<rparr>, pkt\<lparr>Timestamp := 960\<rparr>] \<and>
   send (limitter_vars_after limitter_init [(0, pkt)]) + 480 >
     (10000000 - 0) * 16000 div 1000000000 \<and>
   limitter_run limitter_init [(0, pkt), (10000000, pkt), (60000000, pkt), (70000000, pkt)] ! 1 =
     None"
  using limitter_paces [of 0 pkt "[(10000000, pkt), (60000000, pkt), (70000000, pkt)]"]
  by (simp add: paced_def limitter_def limitter_forward_def limitter_init_def Let_def
      int64_def quo_def Sub_def sampleRate_def sampleSize_def Second_def)

lemma steady_step:
  assumes "send s = 480 * int i" and "firstTime s = 0" and "1 \<le> i"
    and "int i * 960000000000 < 2 ^ 63"
  shows "limitter s (int i * 60000000) p =
           (s\<lparr>send := 480 * int (Suc i)\<rparr>, Some (p\<lparr>Timestamp := word_of_nat (480 * (i + 1))\<rparr>))"
proof -
  have sub: "Sub (int i * 60000000) (firstTime s) = int i * 60000000"
    using assms(2,4) by (simp add: Sub_def)
  have "int64 (int i * 60000000 * 16000) = int i * 60000000 * 16000"
    using assms(4) by (intro int64_id) simp_all
  then have prod: "int64 (int i * 60000000 * sampleRate) = int i * 960 * 1000000000"
    by (simp add: sampleRate_def)
  have "quo (int i * 960 * 1000000000) 1000000000 = int i * 960"
    by (subst quo_nonneg) simp_all
  then have el: "quo (int64 (Sub (int i * 60000000) (firstTime s) * sampleRate)) Second =
      int i * 960"
    by (simp only: sub prod Second_def)
  have "int64 (480 * int i + 480) = 480 * int i + 480"
    using assms(4) by (intro int64_id) simp_all
  then have tot: "int64 (send s + sampleSize) = 480 * int i + 480"
    by (simp only: assms(1) sampleSize_def)
  have nz: "send s \<noteq> 0"
    using assms(1,3) by simp
  have c: "\<not> quo (int64 (Sub (int i * 60000000) (firstTime s) * sampleRate)) Second
      < int64 (send s + sampleSize)"
    using assms(3) by (simp only: el tot)
  have ts: "(word_of_int (480 * int i + 480) :: 32 word) = word_of_nat (480 * (i + 1))"
    by (simp add: algebra_simps)
  have "limitter s (int i * 60000000) p = limitter_forward s p"
    using nz c by (simp add: limitter_def Let_def del: of_nat_mult)
  also have "\<dots> = (s\<lparr>send := 480 * int i + 480\<rparr>,
      Some (p\<lparr>Timestamp := word_of_int (480 * int i + 480)\<rparr>))"
    by (simp only: limitter_forward_def Let_def tot) simp
  also have "\<dots> = (s\<lparr>send := 480 * int (Suc i)\<rparr>,
      Some (p\<lparr>Timestamp := word_of_nat (480 * (i + 1))\<rparr>))"
    by (simp only: ts) (simp add: algebra_simps)
  finally show ?thesis .
qed

lemma steady_from_forwarded:
  assumes "send s = 480 * int i" and "firstTime s = 0" and "1 \<le> i"
    and "int (i + n) * 960000000000 < 2 ^ 63"
  shows "limitter_run s (steady_from i n) =
           map (\<lambda>k. Some (pkt\<lparr>Timestamp := word_of_nat (480 * (k + 1))\<rparr>)) [i..<i + n]"
  using assms
proof (induction n arbitrary: i s)
  case 0
  then show ?case
    by simp
next
  case (Suc n)
  have b: "int i * 960000000000 < 2 ^ 63"
    using Suc.prems(4) by simp
  note st = steady_step [OF Suc.prems(1,2,3) b, of pkt]
  let ?s' = "s\<lparr>send := 480 * int (Suc i)\<rparr>"
  have "limitter_run ?s' (steady_from (Suc i) n) =
      map (\<lambda>k. Some (pkt\<lparr>Timestamp := word_of_nat (480 * (k + 1))\<rparr>)) [Suc i..<Suc i + n]"
    using Suc.prems by (intro Suc.IH) simp_all
  moreover have "[i..<Suc (i + n)] = i # [Suc i..<Suc (i + n)]"
    by (rule upt_conv_Cons) simp
  ultimately show ?case
    using st by (simp del: upt_Suc)
qed

lemma forwarded_map_Some: "forwarded (map (\<lambda>k. Some (g k)) xs) = map g xs"
  by (induction xs) simp_all

lemma paced_steady_stream:
  assumes "int n * 960000000000 < 2 ^ 63"
  shows "paced (steady_stream n) =
           map (\<lambda>k. pkt\<lparr>Timestamp := word_of_nat (480 * (k + 1))\<rparr>) [0..<n]"
proof (cases n)
  case 0
  then show ?thesis
    by (simp add: paced_def steady_stream_def)
next
  case (Suc m)
  have "limitter_run \<lparr>send = 480, firstTime = 0\<rparr> (steady_from 1 m) =
      map (\<lambda>k. Some (pkt\<lparr>Timestamp := word_of_nat (480 * (k + 1))\<rparr>)) [1..<1 + m]"
    using assms Suc by (intro steady_from_forwarded) simp_all
  moreover have "[0..<Suc m] = 0 # [Suc 0..<Suc m]"
    by (rule upt_conv_Cons) simp
  ultimately have "limitter_run limitter_init (steady_stream n) =
      map (\<lambda>k. Some (pkt\<lparr>Timestamp := word_of_nat (480 * (k + 1))\<rparr>)) [0..<n]"
    by (simp add: steady_stream_def Suc limitter_first del: upt_Suc)
  then show ?thesis
    by (simp add: paced_def forwarded_map_Some)
qed

text \<open>
  C7, as stated: the stamps of the forwarded packets increase. \<^verbatim>\<open>uint32(send)\<close> wraps: on
  a stream of 8947849 packets 60 ms apart every packet is forwarded, number 8947848 is
  stamped 4294967040, and number 8947849 is stamped 224.
\<close>

theorem limitter_timestamp_wraps:
  "length (paced (steady_stream 8947849)) = 8947849 \<and>
   Timestamp (paced (steady_stream 8947849) ! 8947847) = 4294967040 \<and>
   Timestamp (paced (steady_stream 8947849) ! 8947848) = 224 \<and>
   unat (Timestamp (paced (steady_stream 8947849) ! 8947848)) <
   unat (Timestamp (paced (steady_stream 8947849) ! 8947847))"
proof -
  have "paced (steady_stream 8947849) =
      map (\<lambda>k. pkt\<lparr>Timestamp := word_of_nat (480 * (k + 1))\<rparr>) [0..<8947849]"
    by (rule paced_steady_stream) simp
  then show ?thesis
    by simp
qed

end
